theory Spec2Isabelle
  imports Complex_Main
begin

unbundle bit_operations_syntax

section \<open>The S-box analysis application (main.py)\<close>

text \<open>
  The program is a single Streamlit script, \<^verbatim>\<open>main()\<close>: it reads an uploaded
  table, brings it to 256 entries, stores it in the session state, shows it as a
  16 x 16 grid, runs the analyses the user selected and offers the table for download.
  Python integers are modelled by \<^typ>\<open>int\<close>, Python floats by \<^typ>\<open>rat\<close>
  (every quotient the analyses form at 256 entries has a power of two as denominator,
  except the final mean of BIC-SAC), exceptions by the left summand of a sum type, and
  the calls on Streamlit by a list of the elements written to the page, in order.
\<close>

subsection \<open>Exceptions, the uploaded file, the session state, the page\<close>

datatype exn =
    InvalidTableLength
  | ValueOutOfRange
  | ReadError string
  | ValueError

text \<open>
  \<open>ReadError\<close> stands for whatever pandas or numpy raise while reading the file,
  flattening it and converting it to integers (line 48 to 56); \<open>ValueError\<close> is numpy's
  refusal to reshape. The field \<open>cells\<close> of an uploaded file is the outcome of
  \<^verbatim>\<open>df.values.flatten().astype(int).tolist()\<close> for the reader that matches the
  file's extension: the row-major list of its cells, or the exception.
\<close>

record uploaded_file =
  name :: string
  cells :: "exn + int list"

type_synonym session_state = "string \<rightharpoonup> int list option"

datatype metric =
    LAP
  | Nonlinearity
  | SAC
  | DAP
  | BIC_SAC
  | BIC_NL

datatype ui =
    Title string
  | SidebarHeader string
  | Info string
  | Warning string
  | Error string
  | ErrorProcessing exn
  | Subheader string
  | Table "string list" "string list" "int list list"
  | Metric string string
  | DownloadButton string string "int list list"

text \<open>
  \<open>ErrorProcessing e\<close> is \<^verbatim>\<open>st.error(f"Error processing file: {str(e)}")\<close> of the
  handler at line 127. \<open>Table index columns grid\<close> is \<^verbatim>\<open>st.table\<close> of a data frame,
  \<open>DownloadButton label file_name rows\<close> the download button with the rows of the
  exported sheet.
\<close>

subsection \<open>Strings: \<^verbatim>\<open>str\<close>, \<^verbatim>\<open>endswith\<close> and the format specification \<^verbatim>\<open>.kf\<close>\<close>

definition digit_char :: "nat \<Rightarrow> char" where
  "digit_char d = char_of (48 + d)"

definition digit_val :: "char \<Rightarrow> nat" where
  "digit_val c = of_char c - 48"

definition is_digit :: "char \<Rightarrow> bool" where
  "is_digit c = (48 \<le> (of_char c :: nat) \<and> (of_char c :: nat) \<le> 57)"

fun digits :: "nat \<Rightarrow> string" where
  "digits n = (if n < 10 then [digit_char n] else digits (n div 10) @ [digit_char (n mod 10)])"

declare digits.simps [simp del]

definition str_int :: "int \<Rightarrow> string" where
  "str_int i = (if i < 0 then CHR ''-'' # digits (nat (- i)) else digits (nat i))"

definition nat_of_digits :: "string \<Rightarrow> nat" where
  "nat_of_digits s = foldl (\<lambda>a c. 10 * a + digit_val c) 0 s"

fun int_of_str :: "string \<Rightarrow> int option" where
  "int_of_str [] = None"
| "int_of_str (c # cs) =
     (if c = CHR ''-'' then (if cs \<noteq> [] \<and> list_all is_digit cs then Some (- int (nat_of_digits cs)) else None)
      else if list_all is_digit (c # cs) then Some (int (nat_of_digits (c # cs))) else None)"

definition endswith :: "string \<Rightarrow> string \<Rightarrow> bool" where
  "endswith s suf = (length suf \<le> length s \<and> drop (length s - length suf) s = suf)"

definition round_half_even :: "rat \<Rightarrow> int" where
  "round_half_even q =
     (let f = \<lfloor>q\<rfloor>; d = q - of_int f
      in if d < 1 / 2 then f else if 1 / 2 < d then f + 1 else if even f then f else f + 1)"

definition zero_pad :: "nat \<Rightarrow> string \<Rightarrow> string" where
  "zero_pad k ds = replicate (k - length ds) (CHR ''0'') @ ds"

text \<open>
  \<^verbatim>\<open>f'{v:.kf}'\<close>: the value rounded to \<open>k\<close> decimals (ties to even), written as
  sign, integer part, point and exactly \<open>k\<close> digits; with \<open>k = 0\<close> Python writes no point.
\<close>

definition format_f :: "nat \<Rightarrow> rat \<Rightarrow> string" where
  "format_f k v =
     (let m = nat (round_half_even (\<bar>v\<bar> * 10 ^ k))
      in (if v < 0 then ''-'' else '''') @ digits (m div 10 ^ k) @
         (if k = 0 then '''' else CHR ''.'' # zero_pad k (digits (m mod 10 ^ k))))"

text \<open>The number of digits a string shows after its decimal point, if it has one.\<close>

definition decimal_places :: "string \<Rightarrow> nat option" where
  "decimal_places s =
     (case dropWhile (\<lambda>c. c \<noteq> CHR ''.'') s of
        [] \<Rightarrow> None
      | _ # fp \<Rightarrow> if list_all is_digit fp then Some (length fp) else None)"

subsection \<open>Ingestion: size adjustment, the grid, the export (lines 56 to 76, 112 to 122)\<close>

definition adjust_size :: "int list \<Rightarrow> ui list \<times> int list" where
  "adjust_size sbox =
     (if length sbox < 256 then
        ([Warning (''S-box size is '' @ str_int (int (length sbox)) @ ''. Padding to 256 elements.'')],
         sbox @ replicate (256 - length sbox) 0)
      else if 256 < length sbox then
        ([Warning (''S-box size is '' @ str_int (int (length sbox)) @ ''. Truncating to 256 elements.'')],
         take 256 sbox)
      else ([], sbox))"

text \<open>\<^verbatim>\<open>np.array(xs).reshape(r, c)\<close>: row-major, a \<^verbatim>\<open>ValueError\<close> unless the sizes agree.\<close>

definition reshape :: "nat \<Rightarrow> nat \<Rightarrow> int list \<Rightarrow> exn + int list list" where
  "reshape r c xs =
     (if length xs = r * c then Inr (map (\<lambda>i. take c (drop (i * c) xs)) [0..<r])
      else Inl ValueError)"

definition grid_labels :: "string list" where
  "grid_labels = map (\<lambda>i. str_int (int i)) [0..<16]"

text \<open>
  \<^verbatim>\<open>pd.DataFrame(sbox).to_excel(buffer, index=False, header=False)\<close>: a sheet of one
  column, one row for each entry.
\<close>

definition export_rows :: "int list \<Rightarrow> int list list" where
  "export_rows sbox = map (\<lambda>v. [v]) sbox"

section \<open>The metrics engine (utils/)\<close>

text \<open>
  Modelled from the spec: the modules under \<^verbatim>\<open>utils/\<close> that \<^verbatim>\<open>main.py\<close> imports
  (\<^verbatim>\<open>linear_approximation_probability\<close>, \<^verbatim>\<open>compute_nonlinearity\<close>,
  \<^verbatim>\<open>strict_avalanche_criterion\<close>, \<^verbatim>\<open>calculate_dap\<close>, \<^verbatim>\<open>calculate_bic_sac\<close>,
  \<^verbatim>\<open>calculate_bic_nl\<close>) are not among the sources. Every definition of this section
  follows sections 3, 4 and 7 of the specification: a table of \<open>N = 2 ^ n\<close> entries, the
  validation at entry with its two errors, and the six metrics by exhaustive
  enumeration. The entry points that \<^verbatim>\<open>main.py\<close> calls take the table alone; they
  work at the canonical width \<open>n = 8\<close>.
\<close>

subsection \<open>Bit algebra (4.1)\<close>

text \<open>
  Modelled from the spec: \<^verbatim>\<open>popcount(x)\<close>, the number of set bits; \<^verbatim>\<open>bitDot(a, b)\<close>,
  the parity of \<^verbatim>\<open>popcount(a AND b)\<close>; \<^verbatim>\<open>getBit(x, i)\<close>, bit \<open>i\<close> of \<open>x\<close>, counted
  from 0 at the least significant end.
\<close>

fun popcount :: "nat \<Rightarrow> nat" where
  "popcount x = (if x = 0 then 0 else x mod 2 + popcount (x div 2))"

declare popcount.simps [simp del]

definition bitDot :: "nat \<Rightarrow> nat \<Rightarrow> nat" where
  "bitDot a b = popcount (a AND b) mod 2"

definition getBit :: "nat \<Rightarrow> nat \<Rightarrow> nat" where
  "getBit x i = (if bit x i then 1 else 0)"

text \<open>
  Modelled from the spec: \<open>S(x)\<close>, the entry of the table at input \<open>x\<close>, a value in
  \<open>[0, N - 1]\<close> once validated. Every index the metrics read is below \<open>N\<close>
  (\<open>x XOR d < 2 ^ n\<close> for \<open>x, d < 2 ^ n\<close>), so no read is out of range on a table
  whose length has been validated.
\<close>

definition S :: "int list \<Rightarrow> nat \<Rightarrow> nat" where
  "S t x = nat (t ! x)"

subsection \<open>Validation (4.5, 7)\<close>

text \<open>
  Modelled from the spec: the two errors of section 7, detected at entry to an analysis:
  \<^verbatim>\<open>InvalidTableLength\<close> when the length is not the supported power of two,
  \<^verbatim>\<open>ValueOutOfRange\<close> when an entry is negative or at least \<open>N\<close>.
\<close>

definition validate :: "nat \<Rightarrow> int list \<Rightarrow> exn + unit" where
  "validate n t =
     (if length t \<noteq> 2 ^ n then Inl InvalidTableLength
      else if list_ex (\<lambda>v. v < 0 \<or> 2 ^ n \<le> v) t then Inl ValueOutOfRange
      else Inr ())"

subsection \<open>Walsh spectrum, LAP and nonlinearity (4.2)\<close>

text \<open>
  Modelled from the spec: \<open>W(a, b)\<close> is the sum over all inputs \<open>x\<close> of
  \<open>(-1) ^ (bitDot(b, S(x)) XOR bitDot(a, x))\<close>; LAP is the maximum of \<open>|W(a, b)| / N\<close>
  over \<open>a\<close> in \<open>[0, N - 1]\<close> and \<open>b\<close> in \<open>[1, N - 1]\<close>; the nonlinearity is
  \<open>2 ^ (n - 1)\<close> minus half of the same maximum, an integer.
\<close>

definition walsh :: "nat \<Rightarrow> int list \<Rightarrow> nat \<Rightarrow> nat \<Rightarrow> int" where
  "walsh n t a b = (\<Sum>x\<leftarrow>[0..<2 ^ n]. (- 1) ^ (bitDot b (S t x) XOR bitDot a x))"

definition max_abs_walsh :: "nat \<Rightarrow> int list \<Rightarrow> int" where
  "max_abs_walsh n t = fold max [\<bar>walsh n t a b\<bar>. a \<leftarrow> [0..<2 ^ n], b \<leftarrow> [1..<2 ^ n]] 0"

definition lap :: "nat \<Rightarrow> int list \<Rightarrow> rat" where
  "lap n t = of_int (max_abs_walsh n t) / of_nat (2 ^ n)"

definition nonlinearity :: "nat \<Rightarrow> int list \<Rightarrow> int" where
  "nonlinearity n t = 2 ^ (n - 1) - max_abs_walsh n t div 2"

subsection \<open>Difference distribution and DAP (4.3)\<close>

text \<open>
  Modelled from the spec: \<open>DDT[dx][dy]\<close> counts the inputs \<open>x\<close> with
  \<open>S(x) XOR S(x XOR dx) = dy\<close>; DAP is the maximum cell over \<open>dx\<close> in \<open>[1, N - 1]\<close>
  and \<open>dy\<close> in \<open>[0, N - 1]\<close>, divided by \<open>N\<close>.
\<close>

definition ddt :: "nat \<Rightarrow> int list \<Rightarrow> nat \<Rightarrow> nat \<Rightarrow> nat" where
  "ddt n t dx dy = length (filter (\<lambda>x. S t x XOR S t (x XOR dx) = dy) [0..<2 ^ n])"

definition dap :: "nat \<Rightarrow> int list \<Rightarrow> rat" where
  "dap n t = of_nat (fold max [ddt n t dx dy. dx \<leftarrow> [1..<2 ^ n], dy \<leftarrow> [0..<2 ^ n]] 0) / of_nat (2 ^ n)"

subsection \<open>Avalanche (4.4)\<close>

text \<open>
  Modelled from the spec: \<open>flipRate[i][j]\<close> is the fraction of inputs \<open>x\<close> for which
  bit \<open>j\<close> of \<open>S(x)\<close> differs from bit \<open>j\<close> of \<open>S(x XOR (1 << i))\<close>; SAC is the
  average of \<open>flipRate[i][j]\<close> over all pairs \<open>i, j\<close> in \<open>[0, n - 1]\<close>.
\<close>

definition flipRate :: "nat \<Rightarrow> int list \<Rightarrow> nat \<Rightarrow> nat \<Rightarrow> rat" where
  "flipRate n t i j =
     of_nat (length (filter (\<lambda>x. getBit (S t x) j \<noteq> getBit (S t (x XOR 2 ^ i)) j) [0..<2 ^ n]))
       / of_nat (2 ^ n)"

definition sac :: "nat \<Rightarrow> int list \<Rightarrow> rat" where
  "sac n t = (\<Sum>i\<leftarrow>[0..<n]. \<Sum>j\<leftarrow>[0..<n]. flipRate n t i j) / of_nat (n * n)"

subsection \<open>Bit independence (4.5)\<close>

text \<open>
  Modelled from the spec: \<open>corr(i, j, k)\<close> is twice the fraction of inputs on which the
  change indicators of output bits \<open>j\<close> and \<open>k\<close> agree under a flip of input bit
  \<open>i\<close>, minus 1; BIC-SAC is the mean of \<open>|corr(i, j, k)|\<close> over all \<open>i\<close> and all
  unordered pairs \<open>j < k\<close>. BIC-NL is the minimum, over the same pairs, of the
  nonlinearity of the Boolean function \<open>getBit(S(x), j) XOR getBit(S(x), k)\<close>.
\<close>

definition delta :: "int list \<Rightarrow> nat \<Rightarrow> nat \<Rightarrow> nat \<Rightarrow> nat" where
  "delta t x i j = getBit (S t x) j XOR getBit (S t (x XOR 2 ^ i)) j"

definition corr :: "nat \<Rightarrow> int list \<Rightarrow> nat \<Rightarrow> nat \<Rightarrow> nat \<Rightarrow> rat" where
  "corr n t i j k =
     of_nat (length (filter (\<lambda>x. delta t x i j = delta t x i k) [0..<2 ^ n])) / of_nat (2 ^ n) * 2 - 1"

definition bit_pairs :: "nat \<Rightarrow> (nat \<times> nat) list" where
  "bit_pairs n = [(j, k). j \<leftarrow> [0..<n], k \<leftarrow> [Suc j..<n]]"

definition bic_sac :: "nat \<Rightarrow> int list \<Rightarrow> rat" where
  "bic_sac n t =
     (\<Sum>i\<leftarrow>[0..<n]. \<Sum>(j, k)\<leftarrow>bit_pairs n. \<bar>corr n t i j k\<bar>) / of_nat (n * length (bit_pairs n))"

definition walsh_bool :: "nat \<Rightarrow> (nat \<Rightarrow> nat) \<Rightarrow> nat \<Rightarrow> int" where
  "walsh_bool n f a = (\<Sum>x\<leftarrow>[0..<2 ^ n]. (- 1) ^ (f x XOR bitDot a x))"

definition nl_bool :: "nat \<Rightarrow> (nat \<Rightarrow> nat) \<Rightarrow> int" where
  "nl_bool n f = 2 ^ (n - 1) - fold max [\<bar>walsh_bool n f a\<bar>. a \<leftarrow> [0..<2 ^ n]] 0 div 2"

text \<open>
  The minimum over the pairs of output bits; no nonlinearity exceeds \<open>2 ^ (n - 1)\<close>, the
  value the minimum starts from.
\<close>

definition bic_nl :: "nat \<Rightarrow> int list \<Rightarrow> int" where
  "bic_nl n t =
     fold min [nl_bool n (\<lambda>x. getBit (S t x) j XOR getBit (S t x) k). (j, k) \<leftarrow> bit_pairs n]
       (2 ^ (n - 1))"

subsection \<open>The entry points\<close>

text \<open>
  Modelled from the spec: each of the six functions validates the table at entry and
  then computes its metric, at the canonical width \<open>n = 8\<close>, \<open>N = 256\<close>.
\<close>

definition n_bits :: nat where
  "n_bits = 8"

definition checked :: "int list \<Rightarrow> (nat \<Rightarrow> int list \<Rightarrow> 'a) \<Rightarrow> exn + 'a" where
  "checked sbox f = (case validate n_bits sbox of Inl e \<Rightarrow> Inl e | Inr _ \<Rightarrow> Inr (f n_bits sbox))"

definition linear_approximation_probability :: "int list \<Rightarrow> exn + rat" where
  "linear_approximation_probability sbox = checked sbox lap"

definition compute_nonlinearity :: "int list \<Rightarrow> exn + int" where
  "compute_nonlinearity sbox = checked sbox nonlinearity"

definition strict_avalanche_criterion :: "int list \<Rightarrow> exn + rat" where
  "strict_avalanche_criterion sbox = checked sbox sac"

definition calculate_dap :: "int list \<Rightarrow> exn + rat" where
  "calculate_dap sbox = checked sbox dap"

definition calculate_bic_sac :: "int list \<Rightarrow> exn + rat" where
  "calculate_bic_sac sbox = checked sbox bic_sac"

definition calculate_bic_nl :: "int list \<Rightarrow> exn + int" where
  "calculate_bic_nl sbox = checked sbox bic_nl"

text \<open>The identity table of section 8, \<open>S(x) = x\<close> on 256 entries.\<close>

definition identity_table :: "int list" where
  "identity_table = map int [0..<256]"

text \<open>The exception an outcome carries, and the one each of the six analyses raises.\<close>

definition raised :: "exn + 'a \<Rightarrow> exn option" where
  "raised x = (case x of Inl e \<Rightarrow> Some e | Inr _ \<Rightarrow> None)"

definition analysis_raised :: "metric \<Rightarrow> int list \<Rightarrow> exn option" where
  "analysis_raised m sbox =
     (case m of
        LAP \<Rightarrow> raised (linear_approximation_probability sbox)
      | Nonlinearity \<Rightarrow> raised (compute_nonlinearity sbox)
      | SAC \<Rightarrow> raised (strict_avalanche_criterion sbox)
      | DAP \<Rightarrow> raised (calculate_dap sbox)
      | BIC_SAC \<Rightarrow> raised (calculate_bic_sac sbox)
      | BIC_NL \<Rightarrow> raised (calculate_bic_nl sbox))"

section \<open>The script\<close>

text \<open>
  A run of the script writes elements to the page, calls analyses and updates the
  session state; \<open>calls\<close> records the analyses invoked and the table each one was
  given, in order. An exception leaves the \<^verbatim>\<open>try\<close> block with what had been
  written and stored until then: the left summand of \<open>raising\<close> carries both.
\<close>

record run =
  page :: "ui list"
  calls :: "(metric \<times> int list) list"
  session :: session_state

type_synonym 'a raising = "(exn \<times> 'a) + 'a"

definition "write" :: "ui \<Rightarrow> run \<Rightarrow> run" where
  "write u r = r\<lparr>page := page r @ [u]\<rparr>"

definition label :: "metric \<Rightarrow> string" where
  "label m =
     (case m of
        LAP \<Rightarrow> ''Linear Approximation Probability (LAP)''
      | Nonlinearity \<Rightarrow> ''Nonlinearity''
      | SAC \<Rightarrow> ''Strict Avalanche Criterion (SAC)''
      | DAP \<Rightarrow> ''Differential Approximation Probability (DAP)''
      | BIC_SAC \<Rightarrow> ''Bit Independence Criterion - SAC (BIC-SAC)''
      | BIC_NL \<Rightarrow> ''Bit Independence Criterion - Nonlinearity (BIC-NL)'')"

text \<open>The analysis of a metric with the formatting of its value (lines 83 to 109).\<close>

definition shown :: "metric \<Rightarrow> int list \<Rightarrow> exn + string" where
  "shown m sbox =
     (case m of
        LAP \<Rightarrow> map_sum id (format_f 6) (linear_approximation_probability sbox)
      | Nonlinearity \<Rightarrow> map_sum id str_int (compute_nonlinearity sbox)
      | SAC \<Rightarrow> map_sum id (format_f 10) (strict_avalanche_criterion sbox)
      | DAP \<Rightarrow> map_sum id (format_f 10) (calculate_dap sbox)
      | BIC_SAC \<Rightarrow> map_sum id (format_f 10) (calculate_bic_sac sbox)
      | BIC_NL \<Rightarrow> map_sum id str_int (calculate_bic_nl sbox))"

text \<open>
  One block \<^verbatim>\<open>if '...' in evaluation_options: v = f(sbox); st.metric('...', ...)\<close>.
\<close>

definition evaluate :: "metric \<Rightarrow> metric list \<Rightarrow> int list \<Rightarrow> run \<Rightarrow> run raising" where
  "evaluate m evaluation_options sbox r =
     (if m \<in> set evaluation_options then
        (case shown m sbox of
           Inl e \<Rightarrow> Inl (e, r\<lparr>calls := calls r @ [(m, sbox)]\<rparr>)
         | Inr v \<Rightarrow> Inr (write (Metric (label m) v) (r\<lparr>calls := calls r @ [(m, sbox)]\<rparr>)))
      else Inr r)"

definition and_then :: "'a raising \<Rightarrow> ('a \<Rightarrow> 'a raising) \<Rightarrow> 'a raising" where
  "and_then x f = (case x of Inl e \<Rightarrow> Inl e | Inr r \<Rightarrow> f r)"

definition evaluations :: "metric list \<Rightarrow> int list \<Rightarrow> run \<Rightarrow> run raising" where
  "evaluations evaluation_options sbox r =
     and_then (evaluate LAP evaluation_options sbox r) (\<lambda>r.
     and_then (evaluate Nonlinearity evaluation_options sbox r) (\<lambda>r.
     and_then (evaluate SAC evaluation_options sbox r) (\<lambda>r.
     and_then (evaluate DAP evaluation_options sbox r) (\<lambda>r.
     and_then (evaluate BIC_SAC evaluation_options sbox r) (\<lambda>r.
     evaluate BIC_NL evaluation_options sbox r)))))"

text \<open>
  The extensions the script reads (lines 47 to 53): \<^verbatim>\<open>.csv\<close> with
  \<^verbatim>\<open>read_csv\<close>, \<^verbatim>\<open>.xls\<close> and \<^verbatim>\<open>.xlsx\<close> with \<^verbatim>\<open>read_excel\<close>; any other
  name gets the message and the early return.
\<close>

definition accepted :: "string \<Rightarrow> bool" where
  "accepted file_name =
     (endswith file_name ''.csv'' \<or> endswith file_name ''.xls'' \<or> endswith file_name ''.xlsx'')"

text \<open>The body of the \<^verbatim>\<open>try\<close> block (lines 45 to 125).\<close>

definition try_body :: "uploaded_file option \<Rightarrow> metric list \<Rightarrow> run \<Rightarrow> run raising" where
  "try_body uploaded evaluation_options r =
     (case uploaded of
        None \<Rightarrow> Inr (write (Info ''Please upload an S-box file to continue.'') r)
      | Some f \<Rightarrow>
          if accepted (name f) then
            (case cells f of
               Inl e \<Rightarrow> Inl (e, r)
             | Inr flat \<Rightarrow>
                 (let (warnings, sbox) = adjust_size flat;
                      r1 = r\<lparr>page := page r @ warnings, session := (session r)(''sbox'' \<mapsto> Some sbox)\<rparr>;
                      r2 = write (Subheader ''Imported S-box'') r1
                  in case reshape 16 16 sbox of
                       Inl e \<Rightarrow> Inl (e, r2)
                     | Inr sbox_grid \<Rightarrow>
                         (let r3 = write (Table grid_labels grid_labels sbox_grid) r2;
                              r4 = write (Subheader ''S-box Cryptographic Evaluation'') r3
                          in and_then (evaluations evaluation_options sbox r4) (\<lambda>r5.
                               Inr (write (DownloadButton ''Download S-box as Excel'' ''sbox_data.xlsx''
                                             (export_rows sbox)) r5)))))
          else Inr (write (Error ''Invalid file type. Please upload a CSV or Excel file.'') r))"

text \<open>\<^verbatim>\<open>except Exception as e: st.error(f"Error processing file: {str(e)}")\<close>\<close>

definition handler :: "run raising \<Rightarrow> run" where
  "handler x = (case x of Inl (e, r) \<Rightarrow> write (ErrorProcessing e) r | Inr r \<Rightarrow> r)"

text \<open>\<^verbatim>\<open>if 'sbox' not in st.session_state: st.session_state.sbox = None\<close>\<close>

definition init_session :: "session_state \<Rightarrow> session_state" where
  "init_session st = (if st ''sbox'' = None then st(''sbox'' \<mapsto> None) else st)"

definition main :: "session_state \<Rightarrow> uploaded_file option \<Rightarrow> metric list \<Rightarrow> run" where
  "main st uploaded evaluation_options =
     (let r0 = \<lparr>page = [Title ''Advanced S-box Cryptographic Analysis'', SidebarHeader ''Import S-box''],
                calls = [],
                session = init_session st\<rparr>
      in handler (try_body uploaded evaluation_options r0))"

text \<open>
  The six blocks in the order of the script, as a list, the same sequence by recursion
  on that list, and the selected metrics in the order of the script.
\<close>

definition all_metrics :: "metric list" where
  "all_metrics = [LAP, Nonlinearity, SAC, DAP, BIC_SAC, BIC_NL]"

fun chain :: "metric list \<Rightarrow> metric list \<Rightarrow> int list \<Rightarrow> run \<Rightarrow> run raising" where
  "chain [] evaluation_options sbox r = Inr r"
| "chain (m # ms) evaluation_options sbox r =
     and_then (evaluate m evaluation_options sbox r) (chain ms evaluation_options sbox)"

definition selected :: "metric list \<Rightarrow> metric list" where
  "selected evaluation_options = filter (\<lambda>m. m \<in> set evaluation_options) all_metrics"

text \<open>
  What every run writes first; what a run writes for a table it has read, up to the
  evaluations; the line of a metric; the table a run stores.
\<close>

definition heading :: "ui list" where
  "heading = [Title ''Advanced S-box Cryptographic Analysis'', SidebarHeader ''Import S-box'']"

definition stored :: "int list \<Rightarrow> int list" where
  "stored flat = snd (adjust_size flat)"

definition grid :: "int list \<Rightarrow> int list list" where
  "grid sbox = map (\<lambda>i. take 16 (drop (i * 16) sbox)) [0..<16]"

definition imported :: "int list \<Rightarrow> ui list" where
  "imported flat =
     fst (adjust_size flat) @
     [Subheader ''Imported S-box'', Table grid_labels grid_labels (grid (stored flat)),
      Subheader ''S-box Cryptographic Evaluation'']"

definition download :: "int list \<Rightarrow> ui" where
  "download sbox = DownloadButton ''Download S-box as Excel'' ''sbox_data.xlsx'' (export_rows sbox)"

definition metric_line :: "int list \<Rightarrow> metric \<Rightarrow> ui" where
  "metric_line sbox m = Metric (label m) (projr (shown m sbox))"

definition metrics_shown :: "ui list \<Rightarrow> (string \<times> string) list" where
  "metrics_shown us = concat (map (\<lambda>u. case u of Metric l v \<Rightarrow> [(l, v)] | _ \<Rightarrow> []) us)"

section \<open>Strings: digits, \<^verbatim>\<open>str\<close> and the fixed-point format\<close>

lemma of_char_digit_char: "d < 10 \<Longrightarrow> (of_char (digit_char d) :: nat) = 48 + d"
  by (simp add: digit_char_def)

lemma digit_val_digit_char: "d < 10 \<Longrightarrow> digit_val (digit_char d) = d"
  by (simp add: digit_val_def of_char_digit_char)

lemma is_digit_digit_char: "d < 10 \<Longrightarrow> is_digit (digit_char d)"
  by (simp add: is_digit_def of_char_digit_char)

lemma is_digit_not_point: "is_digit c \<Longrightarrow> c \<noteq> CHR ''.''"
  by (auto simp add: is_digit_def)

lemma is_digit_not_minus: "is_digit c \<Longrightarrow> c \<noteq> CHR ''-''"
  by (auto simp add: is_digit_def)

lemma is_digit_zero: "is_digit (CHR ''0'')"
  by (simp add: is_digit_def)

lemma digits_all: "list_all is_digit (digits n)"
proof (induction n rule: digits.induct)
  case (1 n)
  show ?case
  proof (cases "n < 10")
    case True
    then show ?thesis
      by (subst digits.simps) (simp add: is_digit_digit_char)
  next
    case False
    then show ?thesis
      using "1.IH" by (subst digits.simps) (simp add: is_digit_digit_char)
  qed
qed

lemma digits_not_Nil: "digits n \<noteq> []"
  by (subst digits.simps) simp

lemma nat_of_digits_snoc: "nat_of_digits (cs @ [c]) = 10 * nat_of_digits cs + digit_val c"
  by (simp add: nat_of_digits_def)

lemma nat_of_digits_digits: "nat_of_digits (digits n) = n"
proof (induction n rule: digits.induct)
  case (1 n)
  show ?case
  proof (cases "n < 10")
    case True
    then show ?thesis
      by (subst digits.simps) (simp add: nat_of_digits_def digit_val_digit_char)
  next
    case False
    then show ?thesis
      using "1.IH" by (subst digits.simps) (simp add: nat_of_digits_snoc digit_val_digit_char)
  qed
qed

lemma length_digits: "0 < k \<Longrightarrow> n < 10 ^ k \<Longrightarrow> length (digits n) \<le> k"
proof (induction n arbitrary: k rule: digits.induct)
  case (1 n)
  show ?case
  proof (cases "n < 10")
    case True
    then show ?thesis
      using "1.prems" by (subst digits.simps) simp
  next
    case False
    then obtain j where k: "k = Suc j"
      using "1.prems" by (cases k) auto
    have "0 < j"
      using False "1.prems" k by (cases j) auto
    moreover have "n div 10 < 10 ^ j"
      using "1.prems" k by (simp add: less_mult_imp_div_less mult.commute)
    ultimately have "length (digits (n div 10)) \<le> j"
      using "1.IH" False by simp
    then show ?thesis
      using False k by (subst digits.simps) simp
  qed
qed

lemma int_of_str_str_int: "int_of_str (str_int i) = Some i"
proof (cases "i < 0")
  case True
  then show ?thesis
    by (simp add: str_int_def digits_not_Nil digits_all nat_of_digits_digits)
next
  case False
  obtain c cs where d: "digits (nat i) = c # cs"
    using digits_not_Nil [of "nat i"] by (cases "digits (nat i)") auto
  have a: "list_all is_digit (c # cs)"
    using digits_all [of "nat i"] by (simp add: d)
  then have "c \<noteq> CHR ''-''"
    using is_digit_not_minus by auto
  moreover have "nat_of_digits (c # cs) = nat i"
    using nat_of_digits_digits [of "nat i"] by (simp add: d)
  ultimately show ?thesis
    using False a by (simp add: str_int_def d)
qed

lemma dropWhile_digits:
  "list_all is_digit ds \<Longrightarrow> dropWhile (\<lambda>c. c \<noteq> CHR ''.'') (ds @ rest) = dropWhile (\<lambda>c. c \<noteq> CHR ''.'') rest"
  by (induction ds) (simp_all add: is_digit_not_point)

lemma decimal_places_format_f:
  assumes "0 < k"
  shows "decimal_places (format_f k v) = Some k"
proof -
  define m where "m = nat (round_half_even (\<bar>v\<bar> * 10 ^ k))"
  define fp where "fp = zero_pad k (digits (m mod 10 ^ k))"
  have "length (digits (m mod 10 ^ k)) \<le> k"
    using assms by (intro length_digits) simp_all
  then have len: "length fp = k"
    by (simp add: fp_def zero_pad_def)
  have dig: "list_all is_digit fp"
    using digits_all [of "m mod 10 ^ k"]
    by (auto simp add: fp_def zero_pad_def is_digit_zero list_all_iff)
  have f: "format_f k v = (if v < 0 then ''-'' else '''') @ digits (m div 10 ^ k) @ CHR ''.'' # fp"
    using assms by (simp add: format_f_def m_def fp_def Let_def)
  have "dropWhile (\<lambda>c. c \<noteq> CHR ''.'') (format_f k v) = CHR ''.'' # fp"
    by (simp add: f dropWhile_digits [OF digits_all])
  then show ?thesis
    by (simp add: decimal_places_def len dig)
qed

lemma str_int_no_point: "decimal_places (str_int i) = None"
proof -
  have h: "dropWhile (\<lambda>c. c \<noteq> CHR ''.'') (digits n) = []" for n
    using dropWhile_digits [OF digits_all, of n "[]"] by simp
  show ?thesis
    by (simp add: decimal_places_def str_int_def h)
qed

lemma digits_small: "n < 10 \<Longrightarrow> digits n = [digit_char n]"
  by (subst digits.simps) simp

lemma digit_char_values:
  "digit_char 0 = CHR ''0''" "digit_char 1 = CHR ''1''" "digit_char 2 = CHR ''2''"
  "digit_char 5 = CHR ''5''" "digit_char (Suc 0) = CHR ''1''"
  by code_simp+

lemma zeros:
  "replicate 5 c = [c, c, c, c, c]"
  "replicate 9 c = [c, c, c, c, c, c, c, c, c]"
  by (simp_all add: eval_nat_numeral)

lemma format_one_6: "format_f 6 1 = ''1.000000''"
  by (simp add: format_f_def round_half_even_def Let_def zero_pad_def digits_small
      digit_char_values zeros)

lemma format_one_10: "format_f 10 1 = ''1.0000000000''"
  by (simp add: format_f_def round_half_even_def Let_def zero_pad_def digits_small
      digit_char_values zeros)

lemma str_int_zero: "str_int 0 = ''0''"
  by (simp add: str_int_def digits_small digit_char_values)

lemma digits_1250000000: "digits 1250000000 = ''1250000000''"
  by (simp add: digits.simps digit_char_values)

lemma format_eighth_10: "format_f 10 (1 / 8) = ''0.1250000000''"
  by (simp add: format_f_def round_half_even_def Let_def zero_pad_def digits_small
      digit_char_values digits_1250000000)

section \<open>Size adjustment, the grid and the export\<close>

lemma length_stored: "length (stored flat) = 256"
  by (simp add: stored_def adjust_size_def)

lemma reshape_stored: "reshape 16 16 (stored flat) = Inr (grid (stored flat))"
  by (simp add: reshape_def grid_def length_stored)

lemma adjust_warnings: "set (fst (adjust_size flat)) \<subseteq> range Warning"
  by (simp add: adjust_size_def)







section \<open>Validation\<close>

lemma validate_stored_length: "validate n_bits (stored flat) \<noteq> Inl InvalidTableLength"
  by (simp add: validate_def n_bits_def length_stored)

lemma validate_cases:
  obtains "validate n_bits sbox = Inr ()" | e where "validate n_bits sbox = Inl e"
  by (cases "validate n_bits sbox") auto

lemma validate_Inr:
  "validate n t = Inr () \<longleftrightarrow> length t = 2 ^ n \<and> (\<forall>v \<in> set t. 0 \<le> v \<and> v < 2 ^ n)"
  by (simp add: validate_def list_ex_iff) (meson linorder_not_less)

lemma validate_range:
  "validate n t = Inl ValueOutOfRange \<longleftrightarrow> length t = 2 ^ n \<and> (\<exists>v \<in> set t. v < 0 \<or> 2 ^ n \<le> v)"
  by (auto simp add: validate_def list_ex_iff)


lemma checked_raised:
  "raised (checked t f) =
     (if length t \<noteq> 256 then Some InvalidTableLength
      else if \<exists>v \<in> set t. v < 0 \<or> 256 \<le> v then Some ValueOutOfRange else None)"
  by (simp add: raised_def checked_def validate_def n_bits_def list_ex_iff)

lemma analysis_raised_eq:
  "analysis_raised m t =
     (if length t \<noteq> 256 then Some InvalidTableLength
      else if \<exists>v \<in> set t. v < 0 \<or> 256 \<le> v then Some ValueOutOfRange
      else None)"
  by (cases m)
     (simp_all only: analysis_raised_def metric.case checked_raised
        linear_approximation_probability_def compute_nonlinearity_def
        strict_avalanche_criterion_def calculate_dap_def calculate_bic_sac_def calculate_bic_nl_def)

section \<open>The metrics of the identity table\<close>

lemma xor_nat_less: "x < 2 ^ n \<Longrightarrow> y < 2 ^ n \<Longrightarrow> x XOR y < (2::nat) ^ n"
proof -
  assume "x < 2 ^ n" and "y < 2 ^ n"
  then have "take_bit n (x XOR y) = x XOR y"
    by (simp add: take_bit_xor take_bit_nat_eq_self)
  then show ?thesis
    by (simp only: take_bit_nat_eq_self_iff)
qed

lemma xor_cancel_nat: "x XOR (x XOR d) = (d::nat)"
  by (simp add: xor.assoc [symmetric])

lemma fold_max_eq:
  fixes m :: "'a::linorder"
  assumes "m \<in> set xs" and "\<forall>x \<in> set xs. x \<le> m" and "a \<le> m"
  shows "fold max xs a = m"
proof -
  have "fold max xs a = Max (set (a # xs))"
    by (simp only: Max.set_eq_fold)
  also have "\<dots> = m"
    using assms by (intro Max_eqI) auto
  finally show ?thesis .
qed

lemma abs_sum_list_le:
  fixes f :: "'a \<Rightarrow> int"
  assumes "\<And>x. \<bar>f x\<bar> \<le> 1"
  shows "\<bar>\<Sum>x\<leftarrow>xs. f x\<bar> \<le> int (length xs)"
proof (induction xs)
  case Nil
  show ?case by simp
next
  case (Cons x xs)
  have "\<bar>f x + (\<Sum>x\<leftarrow>xs. f x)\<bar> \<le> \<bar>f x\<bar> + \<bar>\<Sum>x\<leftarrow>xs. f x\<bar>"
    by (rule abs_triangle_ineq)
  also have "\<dots> \<le> 1 + int (length xs)"
    using assms [of x] Cons.IH by linarith
  finally show ?case by simp
qed

lemma abs_walsh_le: "\<bar>walsh n t a b\<bar> \<le> 2 ^ n"
proof -
  have "\<bar>walsh n t a b\<bar> \<le> int (length [0..<2 ^ n])"
    unfolding walsh_def by (rule abs_sum_list_le) (simp add: power_abs)
  then show ?thesis by simp
qed

lemma ddt_le: "ddt n t dx dy \<le> 2 ^ n"
proof -
  have "ddt n t dx dy \<le> length [0..<2 ^ n]"
    unfolding ddt_def by (rule length_filter_le)
  then show ?thesis by simp
qed

lemma S_identity: "x < 256 \<Longrightarrow> S identity_table x = x"
  by (simp add: S_def identity_table_def)

lemma validate_identity: "validate n_bits identity_table = Inr ()"
  by (auto simp add: validate_Inr n_bits_def identity_table_def)

lemma walsh_identity_diag: "walsh 8 identity_table a a = 256"
proof -
  have "map (\<lambda>x. (- 1 :: int) ^ (bitDot a (S identity_table x) XOR bitDot a x)) [0..<2 ^ 8]
      = map (\<lambda>x. 1) [0..<2 ^ 8]"
    by (rule map_cong) (simp_all add: S_identity)
  then show ?thesis
    unfolding walsh_def by (simp only: sum_list_triv) simp
qed

lemma max_abs_walsh_identity: "max_abs_walsh 8 identity_table = 256"
  unfolding max_abs_walsh_def
proof (rule fold_max_eq)
  have "\<bar>walsh 8 identity_table 1 1\<bar> = 256"
    by (simp add: walsh_identity_diag)
  then show "256 \<in> set [\<bar>walsh 8 identity_table a b\<bar>. a \<leftarrow> [0..<2 ^ 8], b \<leftarrow> [1..<2 ^ 8]]"
    by (force simp add: image_iff)
  show "\<forall>x \<in> set [\<bar>walsh 8 identity_table a b\<bar>. a \<leftarrow> [0..<2 ^ 8], b \<leftarrow> [1..<2 ^ 8]]. x \<le> 256"
    using abs_walsh_le [of 8 identity_table] by auto
  show "(0::int) \<le> 256" by simp
qed

lemma lap_identity: "lap n_bits identity_table = 1"
  unfolding lap_def n_bits_def max_abs_walsh_identity by simp

lemma nonlinearity_identity: "nonlinearity n_bits identity_table = 0"
  unfolding nonlinearity_def n_bits_def max_abs_walsh_identity by simp

lemma ddt_identity:
  assumes "dx < 256"
  shows "ddt 8 identity_table dx dy = (if dy = dx then 256 else 0)"
proof -
  have "S identity_table x XOR S identity_table (x XOR dx) = dx" if "x < 256" for x
  proof -
    have "x XOR dx < 2 ^ 8"
      using that assms by (intro xor_nat_less) simp_all
    then show ?thesis
      using that by (simp add: S_identity xor_cancel_nat)
  qed
  then have "filter (\<lambda>x. S identity_table x XOR S identity_table (x XOR dx) = dy) [0..<2 ^ 8]
      = filter (\<lambda>x. dx = dy) [0..<2 ^ 8]"
    by (intro filter_cong) simp_all
  then show ?thesis
    by (auto simp add: ddt_def)
qed

lemma max_ddt_identity:
  "fold max [ddt 8 identity_table dx dy. dx \<leftarrow> [1..<2 ^ 8], dy \<leftarrow> [0..<2 ^ 8]] 0 = 256"
proof (rule fold_max_eq)
  have "ddt 8 identity_table 1 1 = 256"
    by (simp add: ddt_identity)
  then show "256 \<in> set [ddt 8 identity_table dx dy. dx \<leftarrow> [1..<2 ^ 8], dy \<leftarrow> [0..<2 ^ 8]]"
    by (force simp add: image_iff)
  show "\<forall>x \<in> set [ddt 8 identity_table dx dy. dx \<leftarrow> [1..<2 ^ 8], dy \<leftarrow> [0..<2 ^ 8]]. x \<le> 256"
    using ddt_le [of 8 identity_table] by auto
  show "(0::nat) \<le> 256" by simp
qed

lemma dap_identity: "dap n_bits identity_table = 1"
  unfolding dap_def n_bits_def max_ddt_identity by simp

lemma getBit_flip: "getBit (x XOR 2 ^ i) j \<noteq> getBit x j \<longleftrightarrow> i = j"
  by (auto simp add: getBit_def bit_xor_iff bit_exp_iff)

lemma flipRate_identity:
  assumes "i < 8"
  shows "flipRate 8 identity_table i j = (if i = j then 1 else 0)"
proof -
  have "(getBit (S identity_table x) j \<noteq> getBit (S identity_table (x XOR 2 ^ i)) j) \<longleftrightarrow> i = j"
    if "x < 256" for x
  proof -
    have "(2::nat) ^ i < 2 ^ 8"
      using assms by (intro power_strict_increasing) simp_all
    then have "x XOR 2 ^ i < 2 ^ 8"
      using that by (intro xor_nat_less) simp_all
    then show ?thesis
      using that getBit_flip [of x i j] by (auto simp add: S_identity)
  qed
  then have "filter (\<lambda>x. getBit (S identity_table x) j \<noteq> getBit (S identity_table (x XOR 2 ^ i)) j) [0..<2 ^ 8]
      = filter (\<lambda>x. i = j) [0..<2 ^ 8]"
    by (intro filter_cong) simp_all
  then show ?thesis
    unfolding flipRate_def by (simp only:) simp
qed

lemma sum_list_delta: "(\<Sum>j\<leftarrow>[0..<n]. if i = j then 1 else (0::rat)) = (if i < n then 1 else 0)"
  by (induction n) auto

lemma sum_list_ones: "(\<Sum>i\<leftarrow>[0..<n]. if i < n then 1 else (0::rat)) = of_nat n"
proof -
  have "map (\<lambda>i. if i < n then 1 else (0::rat)) [0..<n] = map (\<lambda>i. 1) [0..<n]"
    by (rule map_cong) simp_all
  then show ?thesis
    by (simp only: sum_list_triv) simp
qed

lemma sac_identity: "sac n_bits identity_table = 1 / 8"
proof -
  have "map (\<lambda>i. \<Sum>j\<leftarrow>[0..<8]. flipRate 8 identity_table i j) [0..<8]
      = map (\<lambda>i. \<Sum>j\<leftarrow>[0..<8]. if i = j then 1 else 0) [0..<8]"
    by (rule map_cong) (simp_all add: flipRate_identity)
  then have "(\<Sum>i\<leftarrow>[0..<8]. \<Sum>j\<leftarrow>[0..<8]. flipRate 8 identity_table i j)
      = (\<Sum>i\<leftarrow>[0..<8]. if i < 8 then 1 else 0)"
    by (simp only: sum_list_delta)
  also have "\<dots> = of_nat 8"
    by (rule sum_list_ones)
  finally have "(\<Sum>i\<leftarrow>[0..<8]. \<Sum>j\<leftarrow>[0..<8]. flipRate 8 identity_table i j) = of_nat 8" .
  then show ?thesis
    unfolding sac_def n_bits_def by simp
qed

lemma checked_identity: "checked identity_table f = Inr (f n_bits identity_table)"
  by (simp add: checked_def validate_identity)

section \<open>Concrete uploads\<close>

lemma accepted_csv: "accepted ''sbox.csv''"
  by (simp add: accepted_def endswith_def)

lemma accepted_xlsx: "accepted ''table.xlsx''"
  by (simp add: accepted_def endswith_def)


lemma stored_bad: "stored [300] = 300 # replicate 255 0"
  by (simp add: stored_def adjust_size_def)

lemma validate_bad: "validate n_bits (stored [300]) = Inl ValueOutOfRange"
  by (simp add: validate_range n_bits_def length_stored) (simp add: stored_bad)

lemma accepted_bad: "accepted ''bad.csv''"
  by (simp add: accepted_def endswith_def)

lemma stored_identity: "stored identity_table = identity_table"
  by (simp add: stored_def adjust_size_def identity_table_def)

lemma accepted_identity: "accepted ''identity.csv''"
  by (simp add: accepted_def endswith_def)

lemma selected_four: "selected [LAP, Nonlinearity, SAC, DAP] = [LAP, Nonlinearity, SAC, DAP]"
  by (simp add: selected_def all_metrics_def)

section \<open>The script, case by case\<close>

lemma and_then_Inr [simp]: "and_then (Inr r) f = f r"
  by (simp add: and_then_def)

lemma and_then_Inl [simp]: "and_then (Inl e) f = Inl e"
  by (simp add: and_then_def)

lemma and_then_return: "and_then x Inr = x"
  by (cases x) simp_all

lemma chain_Nil_fun: "chain [] opts sbox = Inr"
  by (rule ext) simp

lemma chain_Cons_fun:
  "chain (m # ms) opts sbox = (\<lambda>r. and_then (evaluate m opts sbox r) (chain ms opts sbox))"
  by (rule ext) simp

lemma evaluations_chain: "evaluations opts sbox r = chain all_metrics opts sbox r"
  unfolding evaluations_def all_metrics_def chain_Cons_fun chain_Nil_fun
  by (simp add: and_then_return)

lemma shown_valid:
  "validate n_bits sbox = Inr () \<Longrightarrow> \<exists>v. shown m sbox = Inr v"
  by (cases m)
     (simp_all add: shown_def checked_def linear_approximation_probability_def
        compute_nonlinearity_def strict_avalanche_criterion_def calculate_dap_def
        calculate_bic_sac_def calculate_bic_nl_def)

lemma shown_invalid:
  "validate n_bits sbox = Inl e \<Longrightarrow> shown m sbox = Inl e"
  by (cases m)
     (simp_all add: shown_def checked_def linear_approximation_probability_def
        compute_nonlinearity_def strict_avalanche_criterion_def calculate_dap_def
        calculate_bic_sac_def calculate_bic_nl_def)

lemma chain_valid:
  assumes "validate n_bits sbox = Inr ()"
  shows "chain ms opts sbox r =
     Inr (r\<lparr>page := page r @ map (metric_line sbox) (filter (\<lambda>m. m \<in> set opts) ms),
            calls := calls r @ map (\<lambda>m. (m, sbox)) (filter (\<lambda>m. m \<in> set opts) ms)\<rparr>)"
proof (induction ms arbitrary: r)
  case Nil
  show ?case by simp
next
  case (Cons m ms)
  obtain v where v: "shown m sbox = Inr v"
    using shown_valid [OF assms] by blast
  show ?case
    by (simp add: evaluate_def v Cons.IH write_def metric_line_def)
qed

lemma chain_invalid:
  assumes "validate n_bits sbox = Inl e"
  shows "chain ms opts sbox r =
     (case filter (\<lambda>m. m \<in> set opts) ms of
        [] \<Rightarrow> Inr r
      | m # _ \<Rightarrow> Inl (e, r\<lparr>calls := calls r @ [(m, sbox)]\<rparr>))"
proof (induction ms arbitrary: r)
  case Nil
  show ?case by simp
next
  case (Cons m ms)
  show ?case
    by (simp add: evaluate_def shown_invalid [OF assms] Cons.IH)
qed

lemma main_none:
  "main st None opts =
     \<lparr>page = heading @ [Info ''Please upload an S-box file to continue.''], calls = [],
      session = init_session st\<rparr>"
  by (simp add: main_def try_body_def handler_def write_def heading_def)

lemma main_rejected:
  "\<not> accepted (name f) \<Longrightarrow>
   main st (Some f) opts =
     \<lparr>page = heading @ [Error ''Invalid file type. Please upload a CSV or Excel file.''], calls = [],
      session = init_session st\<rparr>"
  by (simp add: main_def try_body_def handler_def write_def heading_def)

lemma main_unreadable:
  "accepted (name f) \<Longrightarrow> cells f = Inl e \<Longrightarrow>
   main st (Some f) opts =
     \<lparr>page = heading @ [ErrorProcessing e], calls = [], session = init_session st\<rparr>"
  by (simp add: main_def try_body_def handler_def write_def heading_def)

lemma try_body_read:
  assumes "accepted (name f)" and "cells f = Inr flat"
  shows "try_body (Some f) opts r =
     and_then (chain all_metrics opts (stored flat)
         (r\<lparr>page := page r @ imported flat,
            session := (session r)(''sbox'' \<mapsto> Some (stored flat))\<rparr>))
       (\<lambda>r5. Inr (write (download (stored flat)) r5))"
  using assms
  by (cases r)
     (simp add: try_body_def split_beta Let_def reshape_stored [unfolded stored_def]
        evaluations_chain write_def imported_def stored_def download_def)

lemma main_valid:
  assumes "accepted (name f)" and "cells f = Inr flat"
    and "validate n_bits (stored flat) = Inr ()"
  shows "main st (Some f) opts =
     \<lparr>page = heading @ imported flat @ map (metric_line (stored flat)) (selected opts) @
               [download (stored flat)],
      calls = map (\<lambda>m. (m, stored flat)) (selected opts),
      session = (init_session st)(''sbox'' \<mapsto> Some (stored flat))\<rparr>"
  by (simp add: main_def try_body_read [OF assms(1,2)] chain_valid [OF assms(3)]
      handler_def write_def heading_def selected_def)

lemma main_invalid_none:
  assumes "accepted (name f)" and "cells f = Inr flat"
    and "validate n_bits (stored flat) = Inl e" and "selected opts = []"
  shows "main st (Some f) opts =
     \<lparr>page = heading @ imported flat @ [download (stored flat)],
      calls = [],
      session = (init_session st)(''sbox'' \<mapsto> Some (stored flat))\<rparr>"
  using assms(4)
  by (simp add: main_def try_body_read [OF assms(1,2)] chain_invalid [OF assms(3)]
      handler_def write_def heading_def selected_def)

lemma main_invalid:
  assumes "accepted (name f)" and "cells f = Inr flat"
    and "validate n_bits (stored flat) = Inl e" and "selected opts = m # ms"
  shows "main st (Some f) opts =
     \<lparr>page = heading @ imported flat @ [ErrorProcessing e],
      calls = [(m, stored flat)],
      session = (init_session st)(''sbox'' \<mapsto> Some (stored flat))\<rparr>"
  using assms(4)
  by (simp add: main_def try_body_read [OF assms(1,2)] chain_invalid [OF assms(3)]
      handler_def write_def heading_def selected_def)

lemma main_read_session:
  assumes "accepted (name f)" and "cells f = Inr flat"
  shows "session (main st (Some f) opts) = (init_session st)(''sbox'' \<mapsto> Some (stored flat))"
proof (cases rule: validate_cases [of "stored flat"])
  case 1
  then show ?thesis by (simp add: main_valid [OF assms])
next
  case (2 e)
  then show ?thesis
    by (cases "selected opts") (simp_all add: main_invalid_none [OF assms] main_invalid [OF assms])
qed

lemma main_read_calls:
  assumes "accepted (name f)" and "cells f = Inr flat"
  shows "snd ` set (calls (main st (Some f) opts)) \<subseteq> {stored flat}"
proof (cases rule: validate_cases [of "stored flat"])
  case 1
  then show ?thesis by (auto simp add: main_valid [OF assms])
next
  case (2 e)
  then show ?thesis
    by (cases "selected opts") (simp_all add: main_invalid_none [OF assms] main_invalid [OF assms])
qed

lemma main_read_page:
  assumes "accepted (name f)" and "cells f = Inr flat"
  shows "\<exists>rest. page (main st (Some f) opts) = heading @ imported flat @ rest \<and>
           set rest \<subseteq> {download (stored flat)} \<union> range ErrorProcessing \<union> range (metric_line (stored flat))"
proof (cases rule: validate_cases [of "stored flat"])
  case 1
  then show ?thesis by (auto simp add: main_valid [OF assms])
next
  case (2 e)
  then show ?thesis
    by (cases "selected opts") (simp_all add: main_invalid_none [OF assms] main_invalid [OF assms])
qed

lemma main_read_table:
  assumes "accepted (name f)" and "cells f = Inr flat"
  shows "Table i c g \<in> set (page (main st (Some f) opts)) \<longleftrightarrow>
           i = grid_labels \<and> c = grid_labels \<and> g = grid (stored flat)"
proof -
  obtain rest where p: "page (main st (Some f) opts) = heading @ imported flat @ rest"
    and rest: "set rest \<subseteq> {download (stored flat)} \<union> range ErrorProcessing \<union> range (metric_line (stored flat))"
    using main_read_page [OF assms] by blast
  have "Table i c g \<notin> set rest"
    using rest by (auto simp add: download_def metric_line_def)
  moreover have "Table i c g \<notin> set (fst (adjust_size flat))"
    using adjust_warnings [of flat] by auto
  ultimately show ?thesis
    by (auto simp add: p heading_def imported_def)
qed

lemma main_read_download:
  assumes "accepted (name f)" and "cells f = Inr flat"
    and "DownloadButton l n rows \<in> set (page (main st (Some f) opts))"
  shows "rows = export_rows (stored flat)"
proof -
  obtain rest where p: "page (main st (Some f) opts) = heading @ imported flat @ rest"
    and rest: "set rest \<subseteq> {download (stored flat)} \<union> range ErrorProcessing \<union> range (metric_line (stored flat))"
    using main_read_page [OF assms(1,2)] by blast
  have "DownloadButton l n rows \<notin> set (fst (adjust_size flat))"
    using adjust_warnings [of flat] by auto
  then have "DownloadButton l n rows \<in> set rest"
    using assms(3) by (auto simp add: p heading_def imported_def)
  then show ?thesis
    using rest by (auto simp add: download_def metric_line_def)
qed

lemma selected_set: "set (selected opts) = set opts"
proof -
  have "m \<in> set all_metrics" for m
    by (cases m) (simp_all add: all_metrics_def)
  then show ?thesis
    by (auto simp add: selected_def)
qed

lemma selected_distinct: "distinct (selected opts)"
  by (simp add: selected_def all_metrics_def)

lemma label_inj: "label m = label m' \<longleftrightarrow> m = m'"
  by (cases m; cases m') (simp_all add: label_def)

lemma metrics_shown_append: "metrics_shown (us @ vs) = metrics_shown us @ metrics_shown vs"
  by (simp add: metrics_shown_def)

lemma metrics_shown_lines:
  "metrics_shown (map (metric_line sbox) ms) = map (\<lambda>m. (label m, projr (shown m sbox))) ms"
  by (induction ms) (simp_all add: metrics_shown_def metric_line_def)

lemma metrics_shown_warnings: "metrics_shown (fst (adjust_size flat)) = []"
  by (simp add: metrics_shown_def adjust_size_def)

lemma metrics_shown_imported: "metrics_shown (imported flat) = []"
  by (simp add: imported_def metrics_shown_append metrics_shown_warnings) (simp add: metrics_shown_def)

lemma metrics_shown_heading: "metrics_shown heading = []"
  by (simp add: heading_def metrics_shown_def)

lemma metrics_shown_valid:
  assumes "accepted (name f)" and "cells f = Inr flat"
    and "validate n_bits (stored flat) = Inr ()"
  shows "metrics_shown (page (main st (Some f) opts)) =
           map (\<lambda>m. (label m, projr (shown m (stored flat)))) (selected opts)"
  by (simp add: main_valid [OF assms] metrics_shown_append metrics_shown_heading
      metrics_shown_imported metrics_shown_lines download_def)
     (simp add: metrics_shown_def)

lemma shown_value:
  assumes "validate n_bits sbox = Inr ()"
  shows "shown m sbox =
     Inr (case m of
            LAP \<Rightarrow> format_f 6 (lap n_bits sbox)
          | Nonlinearity \<Rightarrow> str_int (nonlinearity n_bits sbox)
          | SAC \<Rightarrow> format_f 10 (sac n_bits sbox)
          | DAP \<Rightarrow> format_f 10 (dap n_bits sbox)
          | BIC_SAC \<Rightarrow> format_f 10 (bic_sac n_bits sbox)
          | BIC_NL \<Rightarrow> str_int (bic_nl n_bits sbox))"
  using assms
  by (cases m)
     (simp_all add: shown_def checked_def linear_approximation_probability_def
        compute_nonlinearity_def strict_avalanche_criterion_def calculate_dap_def
        calculate_bic_sac_def calculate_bic_nl_def)

lemma metrics_shown_invalid:
  assumes "accepted (name f)" and "cells f = Inr flat"
    and "validate n_bits (stored flat) = Inl e"
  shows "metrics_shown (page (main st (Some f) opts)) = []"
proof (cases "selected opts")
  case Nil
  then show ?thesis
    by (simp add: main_invalid_none [OF assms] metrics_shown_append metrics_shown_heading
        metrics_shown_imported download_def)
       (simp add: metrics_shown_def)
next
  case (Cons m ms)
  then show ?thesis
    by (simp add: main_invalid [OF assms] metrics_shown_append metrics_shown_heading
        metrics_shown_imported)
       (simp add: metrics_shown_def)
qed

lemma calls_selected:
  assumes "accepted (name f)" and "cells f = Inr flat"
  shows "fst ` set (calls (main st (Some f) opts)) \<subseteq> set opts"
proof (cases rule: validate_cases [of "stored flat"])
  case 1
  then show ?thesis
    by (auto simp add: main_valid [OF assms] selected_set)
next
  case (2 e)
  show ?thesis
  proof (cases "selected opts")
    case Nil
    then show ?thesis
      by (simp add: main_invalid_none [OF assms 2])
  next
    case (Cons m ms)
    then have "m \<in> set opts"
      using selected_set [of opts] by auto
    then show ?thesis
      by (simp add: main_invalid [OF assms 2 Cons])
  qed
qed

lemma reported_iff:
  assumes "accepted (name f)" and "cells f = Inr flat"
  shows "(label m, v) \<in> set (metrics_shown (page (main st (Some f) opts))) \<longleftrightarrow>
           validate n_bits (stored flat) = Inr () \<and> m \<in> set opts \<and> v = projr (shown m (stored flat))"
proof (cases rule: validate_cases [of "stored flat"])
  case 1
  then show ?thesis
    by (auto simp add: metrics_shown_valid [OF assms] selected_set label_inj)
next
  case (2 e)
  then show ?thesis
    by (simp add: metrics_shown_invalid [OF assms])
qed

lemma selected_not_Nil: "set opts \<noteq> {} \<Longrightarrow> selected opts \<noteq> []"
  using selected_set [of opts] by auto

lemma main_read_calls_first:
  assumes "accepted (name f)" and "cells f = Inr flat" and "set opts \<noteq> {}"
  shows "calls (main st (Some f) opts) \<noteq> [] \<and>
         hd (calls (main st (Some f) opts)) = (hd (selected opts), stored flat)"
proof -
  obtain m ms where s: "selected opts = m # ms"
    using selected_not_Nil [OF assms(3)] by (cases "selected opts") auto
  show ?thesis
  proof (cases rule: validate_cases [of "stored flat"])
    case 1
    then show ?thesis
      by (simp add: main_valid [OF assms(1,2)] s)
  next
    case (2 e)
    then show ?thesis
      by (simp add: main_invalid [OF assms(1,2) 2 s] s)
  qed
qed

lemma stored_cases:
  "(length flat < 256 \<longrightarrow> stored flat = flat @ replicate (256 - length flat) 0) \<and>
   (256 < length flat \<longrightarrow> stored flat = take 256 flat) \<and>
   (length flat = 256 \<longrightarrow> stored flat = flat)"
  by (simp add: stored_def adjust_size_def)

lemma selected_LAP_DAP: "selected [LAP, DAP] = [LAP, DAP]"
  by (simp add: selected_def all_metrics_def)

lemma selected_DAP_LAP: "selected [DAP, LAP] = [LAP, DAP]"
  by (simp add: selected_def all_metrics_def)

lemma evaluate_invalid:
  assumes "validate n_bits sbox = Inl e" and "m \<in> set opts"
  shows "evaluate m opts sbox r = Inl (e, r\<lparr>calls := calls r @ [(m, sbox)]\<rparr>)"
  using assms(2) by (simp add: evaluate_def shown_invalid [OF assms(1)])

lemma main_invalid_calls:
  assumes "accepted (name f)" and "cells f = Inr flat"
    and "validate n_bits (stored flat) = Inl e"
  shows "calls (main st (Some f) opts) = map (\<lambda>m. (m, stored flat)) (take 1 (selected opts))"
  by (cases "selected opts")
     (simp_all add: main_invalid_none [OF assms] main_invalid [OF assms])

lemma main_invalid_page:
  assumes "accepted (name f)" and "cells f = Inr flat"
    and "validate n_bits (stored flat) = Inl e"
  shows "page (main st (Some f) opts) =
     heading @ imported flat @
       [if selected opts = [] then download (stored flat) else ErrorProcessing e]"
  by (cases "selected opts")
     (simp_all add: main_invalid_none [OF assms] main_invalid [OF assms])

lemma validate_stored_error:
  "validate n_bits (stored flat) = Inl e \<Longrightarrow> e = ValueOutOfRange"
  using validate_stored_length [of flat]
  by (auto simp add: validate_def split: if_splits)

section \<open>The claims\<close>

text \<open>
  C1. An analysis raises a well-defined error exactly when the table is malformed:
  \<open>InvalidTableLength\<close> when the length is not the supported power of two (256, for the
  entry points the script calls), \<open>ValueOutOfRange\<close> when the length is right and some
  entry is negative or at least \<open>N = 256\<close>; on a table of 256 entries, all in
  \<open>[0, 255]\<close>, no error is raised and the analysis returns its value. A table the
  script has ingested has 256 entries, so only the second error can arise on it.
\<close>

theorem analysis_raises_iff_malformed:
  "analysis_raised m t =
     (if length t \<noteq> 256 then Some InvalidTableLength
      else if \<exists>v \<in> set t. v < 0 \<or> 256 \<le> v then Some ValueOutOfRange
      else None) \<and>
   analysis_raised m (stored flat) =
     (if \<exists>v \<in> set (stored flat). v < 0 \<or> 256 \<le> v then Some ValueOutOfRange else None)"
  by (simp only: analysis_raised_eq length_stored) simp

theorem analysis_raises_iff_malformed_witness:
  "analysis_raised LAP [1, 2, 3] = Some InvalidTableLength \<and>
   analysis_raised DAP (300 # replicate 255 0) = Some ValueOutOfRange \<and>
   analysis_raised BIC_NL (- 1 # replicate 255 0) = Some ValueOutOfRange \<and>
   analysis_raised SAC (replicate 256 7) = None"
  using analysis_raises_iff_malformed [of LAP "[1, 2, 3]", THEN conjunct1]
    analysis_raises_iff_malformed [of DAP "300 # replicate 255 0", THEN conjunct1]
    analysis_raises_iff_malformed [of BIC_NL "- 1 # replicate 255 0", THEN conjunct1]
    analysis_raises_iff_malformed [of SAC "replicate 256 7", THEN conjunct1]
  by simp

text \<open>
  C2. Every table the script has read is brought to exactly 256 entries before any
  analysis is invoked: the list the run places in the session state has 256 entries, it
  is the table read extended with a fill value when that was shorter and its first 256
  entries when it was longer, it is the list shown as the grid, and every analysis the
  run calls is given that list; with a selection that is not empty, an analysis is
  called.
\<close>

theorem ingestion_adjusts_to_256:
  assumes "accepted (name f)" and "cells f = Inr flat"
  shows "\<exists>sbox. session (main st (Some f) opts) ''sbox'' = Some (Some sbox) \<and>
           length sbox = 256 \<and>
           (length flat < 256 \<longrightarrow> (\<exists>fill. sbox = flat @ replicate (256 - length flat) fill)) \<and>
           (256 < length flat \<longrightarrow> sbox = take 256 flat) \<and>
           (length flat = 256 \<longrightarrow> sbox = flat) \<and>
           Table grid_labels grid_labels (grid sbox) \<in> set (page (main st (Some f) opts)) \<and>
           snd ` set (calls (main st (Some f) opts)) \<subseteq> {sbox} \<and>
           (set opts \<noteq> {} \<longrightarrow>
              calls (main st (Some f) opts) \<noteq> [] \<and>
              hd (calls (main st (Some f) opts)) = (hd (selected opts), sbox))"
proof (intro exI [of _ "stored flat"] conjI)
  show "session (main st (Some f) opts) ''sbox'' = Some (Some (stored flat))"
    by (simp add: main_read_session [OF assms])
  show "length (stored flat) = 256"
    by (rule length_stored)
  show "length flat < 256 \<longrightarrow> (\<exists>fill. stored flat = flat @ replicate (256 - length flat) fill)"
    using stored_cases [of flat] by blast
  show "256 < length flat \<longrightarrow> stored flat = take 256 flat"
    using stored_cases [of flat] by blast
  show "length flat = 256 \<longrightarrow> stored flat = flat"
    using stored_cases [of flat] by blast
  show "Table grid_labels grid_labels (grid (stored flat)) \<in> set (page (main st (Some f) opts))"
    by (simp add: main_read_table [OF assms])
  show "snd ` set (calls (main st (Some f) opts)) \<subseteq> {stored flat}"
    by (rule main_read_calls [OF assms])
  show "set opts \<noteq> {} \<longrightarrow>
      calls (main st (Some f) opts) \<noteq> [] \<and>
      hd (calls (main st (Some f) opts)) = (hd (selected opts), stored flat)"
    using main_read_calls_first [OF assms] by blast
qed

theorem ingestion_adjusts_to_256_witness:
  "(\<exists>fill.
      session (main Map.empty (Some \<lparr>name = ''sbox.csv'', cells = Inr [99, 124, 119]\<rparr>) [Nonlinearity]) ''sbox''
        = Some (Some ([99, 124, 119] @ replicate 253 fill)) \<and>
      hd (calls (main Map.empty (Some \<lparr>name = ''sbox.csv'', cells = Inr [99, 124, 119]\<rparr>) [Nonlinearity]))
        = (Nonlinearity, [99, 124, 119] @ replicate 253 fill)) \<and>
   calls (main Map.empty (Some \<lparr>name = ''sbox.csv'', cells = Inr [99, 124, 119]\<rparr>) [Nonlinearity]) \<noteq> [] \<and>
   session (main Map.empty (Some \<lparr>name = ''table.xlsx'', cells = Inr (replicate 300 7)\<rparr>) []) ''sbox''
     = Some (Some (take 256 (replicate 300 7)))"
proof -
  have s: "selected [Nonlinearity] = [Nonlinearity]"
    by (simp add: selected_def all_metrics_def)
  obtain sbox where
    "session (main Map.empty (Some \<lparr>name = ''sbox.csv'', cells = Inr [99, 124, 119]\<rparr>) [Nonlinearity]) ''sbox''
       = Some (Some sbox)"
    and "\<exists>fill. sbox = [99, 124, 119] @ replicate 253 fill"
    and "calls (main Map.empty (Some \<lparr>name = ''sbox.csv'', cells = Inr [99, 124, 119]\<rparr>) [Nonlinearity]) \<noteq> []"
    and "hd (calls (main Map.empty (Some \<lparr>name = ''sbox.csv'', cells = Inr [99, 124, 119]\<rparr>) [Nonlinearity]))
       = (Nonlinearity, sbox)"
    using ingestion_adjusts_to_256 [of "\<lparr>name = ''sbox.csv'', cells = Inr [99, 124, 119]\<rparr>"
        "[99, 124, 119]" Map.empty "[Nonlinearity]"]
    by (auto simp add: accepted_csv s)
  moreover obtain sbox' where
    "session (main Map.empty (Some \<lparr>name = ''table.xlsx'', cells = Inr (replicate 300 7)\<rparr>) []) ''sbox''
       = Some (Some sbox')"
    and "sbox' = take 256 (replicate 300 7)"
    using ingestion_adjusts_to_256 [of "\<lparr>name = ''table.xlsx'', cells = Inr (replicate 300 7)\<rparr>"
        "replicate 300 7" Map.empty "[]"]
    by (auto simp add: accepted_xlsx)
  ultimately show ?thesis
    by auto
qed

text \<open>
  C3. A malformed table is detected at the entry of an analysis, before any metric is
  computed: every analysis returns the error and no value. In the script the block of
  the first selected analysis is the only one entered; it leaves the page and the
  session state as it found them, so the session state of the run is the one of the same
  run with no analysis selected; no metric is written, and the failure is reported by
  the handler as the last element of the page, not as a crash. The length being 256
  after the adjustment, the error is \<open>ValueOutOfRange\<close>.
\<close>

theorem malformed_table_detected_at_entry:
  assumes "accepted (name f)" and "cells f = Inr flat"
    and "validate n_bits (stored flat) = Inl e"
  shows "e = ValueOutOfRange \<and>
         (\<forall>m. shown m (stored flat) = Inl e \<and> analysis_raised m (stored flat) = Some e) \<and>
         (\<forall>m r. m \<in> set opts \<longrightarrow>
            evaluate m opts (stored flat) r = Inl (e, r\<lparr>calls := calls r @ [(m, stored flat)]\<rparr>)) \<and>
         calls (main st (Some f) opts) = map (\<lambda>m. (m, stored flat)) (take 1 (selected opts)) \<and>
         metrics_shown (page (main st (Some f) opts)) = [] \<and>
         page (main st (Some f) opts) =
           heading @ imported flat @
             [if selected opts = [] then download (stored flat) else ErrorProcessing e] \<and>
         session (main st (Some f) opts) = session (main st (Some f) []) \<and>
         session (main st (Some f) opts) = (init_session st)(''sbox'' \<mapsto> Some (stored flat))"
proof (intro conjI)
  show e: "e = ValueOutOfRange"
    by (rule validate_stored_error [OF assms(3)])
  have "\<exists>v \<in> set (stored flat). v < 0 \<or> 256 \<le> v"
    using assms(3) by (simp add: validate_range n_bits_def e)
  then have "analysis_raised m (stored flat) = Some e" for m
    by (simp add: analysis_raised_eq length_stored e)
  then show "\<forall>m. shown m (stored flat) = Inl e \<and> analysis_raised m (stored flat) = Some e"
    by (simp add: shown_invalid [OF assms(3)])
  show "\<forall>m r. m \<in> set opts \<longrightarrow>
      evaluate m opts (stored flat) r = Inl (e, r\<lparr>calls := calls r @ [(m, stored flat)]\<rparr>)"
    by (simp add: evaluate_invalid [OF assms(3)])
  show "calls (main st (Some f) opts) = map (\<lambda>m. (m, stored flat)) (take 1 (selected opts))"
    by (rule main_invalid_calls [OF assms])
  show "metrics_shown (page (main st (Some f) opts)) = []"
    by (rule metrics_shown_invalid [OF assms])
  show "page (main st (Some f) opts) =
      heading @ imported flat @
        [if selected opts = [] then download (stored flat) else ErrorProcessing e]"
    by (rule main_invalid_page [OF assms])
  show "session (main st (Some f) opts) = session (main st (Some f) [])"
    by (simp add: main_read_session [OF assms(1,2)])
  show "session (main st (Some f) opts) = (init_session st)(''sbox'' \<mapsto> Some (stored flat))"
    by (rule main_read_session [OF assms(1,2)])
qed

theorem malformed_table_detected_at_entry_witness:
  "shown DAP (stored [300]) = Inl ValueOutOfRange \<and>
   analysis_raised DAP (stored [300]) = Some ValueOutOfRange \<and>
   evaluate DAP [LAP, DAP] (stored [300]) \<lparr>page = [], calls = [], session = Map.empty\<rparr>
     = Inl (ValueOutOfRange, \<lparr>page = [], calls = [(DAP, stored [300])], session = Map.empty\<rparr>) \<and>
   calls (main [''sbox'' \<mapsto> None] (Some \<lparr>name = ''bad.csv'', cells = Inr [300]\<rparr>) [LAP, DAP])
     = [(LAP, stored [300])] \<and>
   metrics_shown (page (main [''sbox'' \<mapsto> None] (Some \<lparr>name = ''bad.csv'', cells = Inr [300]\<rparr>) [LAP, DAP])) = [] \<and>
   page (main [''sbox'' \<mapsto> None] (Some \<lparr>name = ''bad.csv'', cells = Inr [300]\<rparr>) [LAP, DAP])
     = heading @ imported [300] @ [ErrorProcessing ValueOutOfRange] \<and>
   session (main [''sbox'' \<mapsto> None] (Some \<lparr>name = ''bad.csv'', cells = Inr [300]\<rparr>) [LAP, DAP])
     = session (main [''sbox'' \<mapsto> None] (Some \<lparr>name = ''bad.csv'', cells = Inr [300]\<rparr>) [])"
proof -
  have a: "accepted (name \<lparr>name = ''bad.csv'', cells = Inr [300]\<rparr>)"
    and c: "cells \<lparr>name = ''bad.csv'', cells = Inr [300]\<rparr> = Inr [300]"
    by (simp_all add: accepted_bad)
  note t = malformed_table_detected_at_entry [OF a c validate_bad, of "[LAP, DAP]" "[''sbox'' \<mapsto> None]"]
  note t1 = t [THEN conjunct2, THEN conjunct1]
  note t2 = t [THEN conjunct2, THEN conjunct2, THEN conjunct1]
  note t3 = t [THEN conjunct2, THEN conjunct2, THEN conjunct2, THEN conjunct1]
  note t4 = t [THEN conjunct2, THEN conjunct2, THEN conjunct2, THEN conjunct2, THEN conjunct1]
  note t5 = t [THEN conjunct2, THEN conjunct2, THEN conjunct2, THEN conjunct2, THEN conjunct2,
      THEN conjunct1]
  note t6 = t [THEN conjunct2, THEN conjunct2, THEN conjunct2, THEN conjunct2, THEN conjunct2,
      THEN conjunct2, THEN conjunct1]
  show ?thesis
  proof (intro conjI)
    show "shown DAP (stored [300]) = Inl ValueOutOfRange"
      using t1 by simp
    show "analysis_raised DAP (stored [300]) = Some ValueOutOfRange"
      using t1 by simp
    show "evaluate DAP [LAP, DAP] (stored [300]) \<lparr>page = [], calls = [], session = Map.empty\<rparr>
        = Inl (ValueOutOfRange, \<lparr>page = [], calls = [(DAP, stored [300])], session = Map.empty\<rparr>)"
      using t2 [rule_format, of DAP "\<lparr>page = [], calls = [], session = Map.empty\<rparr>"] by simp
    show "calls (main [''sbox'' \<mapsto> None] (Some \<lparr>name = ''bad.csv'', cells = Inr [300]\<rparr>) [LAP, DAP])
        = [(LAP, stored [300])]"
      using t3 by (simp add: selected_LAP_DAP)
    show "metrics_shown (page (main [''sbox'' \<mapsto> None]
        (Some \<lparr>name = ''bad.csv'', cells = Inr [300]\<rparr>) [LAP, DAP])) = []"
      by (rule t4)
    show "page (main [''sbox'' \<mapsto> None] (Some \<lparr>name = ''bad.csv'', cells = Inr [300]\<rparr>) [LAP, DAP])
        = heading @ imported [300] @ [ErrorProcessing ValueOutOfRange]"
      using t5 by (simp add: selected_LAP_DAP)
    show "session (main [''sbox'' \<mapsto> None] (Some \<lparr>name = ''bad.csv'', cells = Inr [300]\<rparr>) [LAP, DAP])
        = session (main [''sbox'' \<mapsto> None] (Some \<lparr>name = ''bad.csv'', cells = Inr [300]\<rparr>) [])"
      by (rule t6)
  qed
qed

text \<open>
  C4, as stated: exactly the selected analyses are computed and reported. It fails on a
  table with an entry out of range: with an upload whose only cell is 300 and LAP and DAP
  selected, LAP is the only analysis called and no metric is reported.
\<close>

theorem failing_analysis_stops_the_others:
  "calls (main Map.empty (Some \<lparr>name = ''bad.csv'', cells = Inr [300]\<rparr>) [LAP, DAP])
     = [(LAP, 300 # replicate 255 0)] \<and>
   metrics_shown (page (main Map.empty (Some \<lparr>name = ''bad.csv'', cells = Inr [300]\<rparr>) [LAP, DAP])) = []"
proof -
  have a: "accepted (name \<lparr>name = ''bad.csv'', cells = Inr [300]\<rparr>)"
    and c: "cells \<lparr>name = ''bad.csv'', cells = Inr [300]\<rparr> = Inr [300]"
    by (simp_all add: accepted_bad)
  show ?thesis
    by (simp add: main_invalid_calls [OF a c validate_bad] metrics_shown_invalid [OF a c validate_bad]
        selected_LAP_DAP stored_bad)
qed

text \<open>
  C4, amended. For every selection among the six analyses and every ingested table that
  passes validation, exactly the selected analyses are computed and reported, each once
  and in the order of the script, and each reported value is a function of the ingested
  table alone: the metric of that table, formatted. On any ingested table, only selected
  analyses are called and reported.
\<close>

theorem selected_analyses_reported:
  assumes "accepted (name f)" and "cells f = Inr flat"
  shows "fst ` set (calls (main st (Some f) opts)) \<subseteq> set opts \<and>
         snd ` set (calls (main st (Some f) opts)) \<subseteq> {stored flat} \<and>
         (\<forall>m v. (label m, v) \<in> set (metrics_shown (page (main st (Some f) opts))) \<longrightarrow>
            m \<in> set opts \<and>
            v = (case m of
                   LAP \<Rightarrow> format_f 6 (lap n_bits (stored flat))
                 | Nonlinearity \<Rightarrow> str_int (nonlinearity n_bits (stored flat))
                 | SAC \<Rightarrow> format_f 10 (sac n_bits (stored flat))
                 | DAP \<Rightarrow> format_f 10 (dap n_bits (stored flat))
                 | BIC_SAC \<Rightarrow> format_f 10 (bic_sac n_bits (stored flat))
                 | BIC_NL \<Rightarrow> str_int (bic_nl n_bits (stored flat)))) \<and>
         (validate n_bits (stored flat) = Inr () \<longrightarrow>
            map fst (calls (main st (Some f) opts)) = selected opts \<and>
            set (selected opts) = set opts \<and> distinct (selected opts) \<and>
            metrics_shown (page (main st (Some f) opts)) =
              map (\<lambda>m. (label m,
                     case m of
                       LAP \<Rightarrow> format_f 6 (lap n_bits (stored flat))
                     | Nonlinearity \<Rightarrow> str_int (nonlinearity n_bits (stored flat))
                     | SAC \<Rightarrow> format_f 10 (sac n_bits (stored flat))
                     | DAP \<Rightarrow> format_f 10 (dap n_bits (stored flat))
                     | BIC_SAC \<Rightarrow> format_f 10 (bic_sac n_bits (stored flat))
                     | BIC_NL \<Rightarrow> str_int (bic_nl n_bits (stored flat))))
                (selected opts))"
proof (intro conjI)
  show "fst ` set (calls (main st (Some f) opts)) \<subseteq> set opts"
    by (rule calls_selected [OF assms])
  show "snd ` set (calls (main st (Some f) opts)) \<subseteq> {stored flat}"
    by (rule main_read_calls [OF assms])
  show "\<forall>m v. (label m, v) \<in> set (metrics_shown (page (main st (Some f) opts))) \<longrightarrow>
      m \<in> set opts \<and>
      v = (case m of
             LAP \<Rightarrow> format_f 6 (lap n_bits (stored flat))
           | Nonlinearity \<Rightarrow> str_int (nonlinearity n_bits (stored flat))
           | SAC \<Rightarrow> format_f 10 (sac n_bits (stored flat))
           | DAP \<Rightarrow> format_f 10 (dap n_bits (stored flat))
           | BIC_SAC \<Rightarrow> format_f 10 (bic_sac n_bits (stored flat))
           | BIC_NL \<Rightarrow> str_int (bic_nl n_bits (stored flat)))"
  proof (intro allI impI)
    fix m v
    assume "(label m, v) \<in> set (metrics_shown (page (main st (Some f) opts)))"
    then have ok: "validate n_bits (stored flat) = Inr ()" and m: "m \<in> set opts"
      and v: "v = projr (shown m (stored flat))"
      by (simp_all add: reported_iff [OF assms])
    show "m \<in> set opts \<and>
      v = (case m of
             LAP \<Rightarrow> format_f 6 (lap n_bits (stored flat))
           | Nonlinearity \<Rightarrow> str_int (nonlinearity n_bits (stored flat))
           | SAC \<Rightarrow> format_f 10 (sac n_bits (stored flat))
           | DAP \<Rightarrow> format_f 10 (dap n_bits (stored flat))
           | BIC_SAC \<Rightarrow> format_f 10 (bic_sac n_bits (stored flat))
           | BIC_NL \<Rightarrow> str_int (bic_nl n_bits (stored flat)))"
      by (simp add: m v shown_value [OF ok])
  qed
  show "validate n_bits (stored flat) = Inr () \<longrightarrow>
      map fst (calls (main st (Some f) opts)) = selected opts \<and>
      set (selected opts) = set opts \<and> distinct (selected opts) \<and>
      metrics_shown (page (main st (Some f) opts)) =
        map (\<lambda>m. (label m,
               case m of
                 LAP \<Rightarrow> format_f 6 (lap n_bits (stored flat))
               | Nonlinearity \<Rightarrow> str_int (nonlinearity n_bits (stored flat))
               | SAC \<Rightarrow> format_f 10 (sac n_bits (stored flat))
               | DAP \<Rightarrow> format_f 10 (dap n_bits (stored flat))
               | BIC_SAC \<Rightarrow> format_f 10 (bic_sac n_bits (stored flat))
               | BIC_NL \<Rightarrow> str_int (bic_nl n_bits (stored flat))))
          (selected opts)"
  proof
    assume ok: "validate n_bits (stored flat) = Inr ()"
    have "map fst (calls (main st (Some f) opts)) = selected opts"
      by (simp add: main_valid [OF assms ok] comp_def)
    then show "map fst (calls (main st (Some f) opts)) = selected opts \<and>
      set (selected opts) = set opts \<and> distinct (selected opts) \<and>
      metrics_shown (page (main st (Some f) opts)) =
        map (\<lambda>m. (label m,
               case m of
                 LAP \<Rightarrow> format_f 6 (lap n_bits (stored flat))
               | Nonlinearity \<Rightarrow> str_int (nonlinearity n_bits (stored flat))
               | SAC \<Rightarrow> format_f 10 (sac n_bits (stored flat))
               | DAP \<Rightarrow> format_f 10 (dap n_bits (stored flat))
               | BIC_SAC \<Rightarrow> format_f 10 (bic_sac n_bits (stored flat))
               | BIC_NL \<Rightarrow> str_int (bic_nl n_bits (stored flat))))
          (selected opts)"
      by (simp add: selected_set selected_distinct metrics_shown_valid [OF assms ok]
          shown_value [OF ok])
  qed
qed

theorem selected_analyses_reported_witness:
  "map fst (calls (main Map.empty (Some \<lparr>name = ''identity.csv'', cells = Inr identity_table\<rparr>) [DAP, LAP]))
     = [LAP, DAP] \<and>
   metrics_shown (page (main Map.empty (Some \<lparr>name = ''identity.csv'', cells = Inr identity_table\<rparr>) [DAP, LAP]))
     = [(''Linear Approximation Probability (LAP)'', ''1.000000''),
        (''Differential Approximation Probability (DAP)'', ''1.0000000000'')]"
proof -
  have a: "accepted (name \<lparr>name = ''identity.csv'', cells = Inr identity_table\<rparr>)"
    and c: "cells \<lparr>name = ''identity.csv'', cells = Inr identity_table\<rparr> = Inr identity_table"
    by (simp_all add: accepted_identity)
  have v: "validate n_bits (stored identity_table) = Inr ()"
    by (simp add: stored_identity validate_identity)
  note t = selected_analyses_reported [OF a c, of Map.empty "[DAP, LAP]",
      THEN conjunct2, THEN conjunct2, THEN conjunct2, THEN mp, OF v, unfolded stored_identity]
  note t1 = t [THEN conjunct1]
  note t2 = t [THEN conjunct2, THEN conjunct2, THEN conjunct2]
  show ?thesis
  proof (intro conjI)
    show "map fst (calls (main Map.empty (Some \<lparr>name = ''identity.csv'', cells = Inr identity_table\<rparr>)
        [DAP, LAP])) = [LAP, DAP]"
      by (simp only: t1 selected_DAP_LAP)
    show "metrics_shown (page (main Map.empty (Some \<lparr>name = ''identity.csv'', cells = Inr identity_table\<rparr>)
        [DAP, LAP]))
      = [(''Linear Approximation Probability (LAP)'', ''1.000000''),
         (''Differential Approximation Probability (DAP)'', ''1.0000000000'')]"
      by (simp only: t2 selected_DAP_LAP)
         (simp add: lap_identity dap_identity format_one_6 format_one_10 label_def)
  qed
qed

text \<open>
  C5. The reported results have the stated types and precisions: LAP is written with 6
  decimal places; SAC, DAP and BIC-SAC with 10 decimal places; Nonlinearity and BIC-NL
  as exact integers (the string written reads back as the integer computed, and has no
  decimal point). On a table that passes validation every selected metric is reported.
\<close>

theorem reported_formats:
  assumes "accepted (name f)" and "cells f = Inr flat"
  shows "(\<forall>m v. (label m, v) \<in> set (metrics_shown (page (main st (Some f) opts))) \<longrightarrow>
            (case m of
               LAP \<Rightarrow> v = format_f 6 (lap n_bits (stored flat)) \<and> decimal_places v = Some 6
             | Nonlinearity \<Rightarrow> v = str_int (nonlinearity n_bits (stored flat)) \<and>
                 int_of_str v = Some (nonlinearity n_bits (stored flat)) \<and> decimal_places v = None
             | SAC \<Rightarrow> v = format_f 10 (sac n_bits (stored flat)) \<and> decimal_places v = Some 10
             | DAP \<Rightarrow> v = format_f 10 (dap n_bits (stored flat)) \<and> decimal_places v = Some 10
             | BIC_SAC \<Rightarrow> v = format_f 10 (bic_sac n_bits (stored flat)) \<and> decimal_places v = Some 10
             | BIC_NL \<Rightarrow> v = str_int (bic_nl n_bits (stored flat)) \<and>
                 int_of_str v = Some (bic_nl n_bits (stored flat)) \<and> decimal_places v = None)) \<and>
         (validate n_bits (stored flat) = Inr () \<longrightarrow>
            (\<forall>m \<in> set opts. \<exists>v. (label m, v) \<in> set (metrics_shown (page (main st (Some f) opts)))))"
proof -
  have fmt: "case m of
        LAP \<Rightarrow> v = format_f 6 (lap n_bits (stored flat)) \<and> decimal_places v = Some 6
      | Nonlinearity \<Rightarrow> v = str_int (nonlinearity n_bits (stored flat)) \<and>
          int_of_str v = Some (nonlinearity n_bits (stored flat)) \<and> decimal_places v = None
      | SAC \<Rightarrow> v = format_f 10 (sac n_bits (stored flat)) \<and> decimal_places v = Some 10
      | DAP \<Rightarrow> v = format_f 10 (dap n_bits (stored flat)) \<and> decimal_places v = Some 10
      | BIC_SAC \<Rightarrow> v = format_f 10 (bic_sac n_bits (stored flat)) \<and> decimal_places v = Some 10
      | BIC_NL \<Rightarrow> v = str_int (bic_nl n_bits (stored flat)) \<and>
          int_of_str v = Some (bic_nl n_bits (stored flat)) \<and> decimal_places v = None"
    if "validate n_bits (stored flat) = Inr ()" and "v = projr (shown m (stored flat))" for m v
    using that(2)
    by (cases m)
       (simp_all add: shown_value [OF that(1)] decimal_places_format_f int_of_str_str_int
          str_int_no_point)
  have b: "\<forall>m v. (label m, v) \<in> set (metrics_shown (page (main st (Some f) opts))) \<longrightarrow>
      (case m of
         LAP \<Rightarrow> v = format_f 6 (lap n_bits (stored flat)) \<and> decimal_places v = Some 6
       | Nonlinearity \<Rightarrow> v = str_int (nonlinearity n_bits (stored flat)) \<and>
           int_of_str v = Some (nonlinearity n_bits (stored flat)) \<and> decimal_places v = None
       | SAC \<Rightarrow> v = format_f 10 (sac n_bits (stored flat)) \<and> decimal_places v = Some 10
       | DAP \<Rightarrow> v = format_f 10 (dap n_bits (stored flat)) \<and> decimal_places v = Some 10
       | BIC_SAC \<Rightarrow> v = format_f 10 (bic_sac n_bits (stored flat)) \<and> decimal_places v = Some 10
       | BIC_NL \<Rightarrow> v = str_int (bic_nl n_bits (stored flat)) \<and>
           int_of_str v = Some (bic_nl n_bits (stored flat)) \<and> decimal_places v = None)"
  proof (intro allI impI)
    fix m v
    assume "(label m, v) \<in> set (metrics_shown (page (main st (Some f) opts)))"
    then have "validate n_bits (stored flat) = Inr ()" and "v = projr (shown m (stored flat))"
      by (simp_all add: reported_iff [OF assms])
    then show "case m of
         LAP \<Rightarrow> v = format_f 6 (lap n_bits (stored flat)) \<and> decimal_places v = Some 6
       | Nonlinearity \<Rightarrow> v = str_int (nonlinearity n_bits (stored flat)) \<and>
           int_of_str v = Some (nonlinearity n_bits (stored flat)) \<and> decimal_places v = None
       | SAC \<Rightarrow> v = format_f 10 (sac n_bits (stored flat)) \<and> decimal_places v = Some 10
       | DAP \<Rightarrow> v = format_f 10 (dap n_bits (stored flat)) \<and> decimal_places v = Some 10
       | BIC_SAC \<Rightarrow> v = format_f 10 (bic_sac n_bits (stored flat)) \<and> decimal_places v = Some 10
       | BIC_NL \<Rightarrow> v = str_int (bic_nl n_bits (stored flat)) \<and>
           int_of_str v = Some (bic_nl n_bits (stored flat)) \<and> decimal_places v = None"
      by (rule fmt)
  qed
  have c: "validate n_bits (stored flat) = Inr () \<longrightarrow>
      (\<forall>m \<in> set opts. \<exists>v. (label m, v) \<in> set (metrics_shown (page (main st (Some f) opts))))"
    by (simp add: reported_iff [OF assms])
  show ?thesis
    using b c by (intro conjI)
qed

theorem reported_formats_witness:
  "metrics_shown (page (main Map.empty (Some \<lparr>name = ''identity.csv'', cells = Inr identity_table\<rparr>)
       [LAP, Nonlinearity, SAC, DAP]))
     = [(''Linear Approximation Probability (LAP)'', ''1.000000''),
        (''Nonlinearity'', ''0''),
        (''Strict Avalanche Criterion (SAC)'', ''0.1250000000''),
        (''Differential Approximation Probability (DAP)'', ''1.0000000000'')] \<and>
   decimal_places ''1.000000'' = Some 6 \<and>
   decimal_places ''0.1250000000'' = Some 10 \<and>
   decimal_places ''1.0000000000'' = Some 10 \<and>
   int_of_str ''0'' = Some 0 \<and> decimal_places ''0'' = None"
proof -
  let ?f = "\<lparr>name = ''identity.csv'', cells = Inr identity_table\<rparr>"
  let ?opts = "[LAP, Nonlinearity, SAC, DAP]"
  have v: "validate n_bits (stored identity_table) = Inr ()"
    by (simp add: stored_identity validate_identity)
  have a: "accepted (name ?f)" and c: "cells ?f = Inr identity_table"
    by (simp_all add: accepted_identity)
  have m: "metrics_shown (page (main Map.empty (Some ?f) ?opts)) =
      [(label LAP, projr (shown LAP identity_table)),
       (label Nonlinearity, projr (shown Nonlinearity identity_table)),
       (label SAC, projr (shown SAC identity_table)),
       (label DAP, projr (shown DAP identity_table))]"
    by (simp add: metrics_shown_valid [OF a c v] selected_four stored_identity)
  have r: "\<forall>m v. (label m, v) \<in> set (metrics_shown (page (main Map.empty (Some ?f) ?opts))) \<longrightarrow>
            (case m of
               LAP \<Rightarrow> v = format_f 6 (lap n_bits identity_table) \<and> decimal_places v = Some 6
             | Nonlinearity \<Rightarrow> v = str_int (nonlinearity n_bits identity_table) \<and>
                 int_of_str v = Some (nonlinearity n_bits identity_table) \<and> decimal_places v = None
             | SAC \<Rightarrow> v = format_f 10 (sac n_bits identity_table) \<and> decimal_places v = Some 10
             | DAP \<Rightarrow> v = format_f 10 (dap n_bits identity_table) \<and> decimal_places v = Some 10
             | BIC_SAC \<Rightarrow> v = format_f 10 (bic_sac n_bits identity_table) \<and> decimal_places v = Some 10
             | BIC_NL \<Rightarrow> v = str_int (bic_nl n_bits identity_table) \<and>
                 int_of_str v = Some (bic_nl n_bits identity_table) \<and> decimal_places v = None)"
    using reported_formats [OF a c, of Map.empty ?opts, THEN conjunct1] unfolding stored_identity .
  have 1: "projr (shown LAP identity_table) = ''1.000000'' \<and> decimal_places ''1.000000'' = Some 6"
    using r [rule_format, of LAP "projr (shown LAP identity_table)"]
    by (auto simp add: m lap_identity format_one_6)
  have 2: "projr (shown Nonlinearity identity_table) = ''0'' \<and> int_of_str ''0'' = Some 0
      \<and> decimal_places ''0'' = None"
    using r [rule_format, of Nonlinearity "projr (shown Nonlinearity identity_table)"]
    by (auto simp add: m nonlinearity_identity str_int_zero simp del: int_of_str.simps)
  have 3: "projr (shown SAC identity_table) = ''0.1250000000'' \<and> decimal_places ''0.1250000000'' = Some 10"
    using r [rule_format, of SAC "projr (shown SAC identity_table)"]
    by (auto simp add: m sac_identity format_eighth_10)
  have 4: "projr (shown DAP identity_table) = ''1.0000000000'' \<and> decimal_places ''1.0000000000'' = Some 10"
    using r [rule_format, of DAP "projr (shown DAP identity_table)"]
    by (auto simp add: m dap_identity format_one_10)
  show ?thesis
    using 1 2 3 4 by (simp add: m label_def)
qed

text \<open>
  C6. After an upload has been read, the table the script keeps has exactly 256 entries,
  whatever the length of the uploaded table: it is the list placed in the session state,
  the list every analysis is given, the list shown as the 16 x 16 grid and the list
  exported.
\<close>

theorem stored_sbox_has_256_entries:
  assumes "accepted (name f)" and "cells f = Inr flat"
  shows "\<exists>sbox. length sbox = 256 \<and>
           session (main st (Some f) opts) ''sbox'' = Some (Some sbox) \<and>
           snd ` set (calls (main st (Some f) opts)) \<subseteq> {sbox} \<and>
           Table grid_labels grid_labels (grid sbox) \<in> set (page (main st (Some f) opts)) \<and>
           reshape 16 16 sbox = Inr (grid sbox) \<and>
           (\<forall>i c g. Table i c g \<in> set (page (main st (Some f) opts)) \<longrightarrow> g = grid sbox) \<and>
           (\<forall>l n rows. DownloadButton l n rows \<in> set (page (main st (Some f) opts)) \<longrightarrow>
              rows = export_rows sbox \<and> length rows = 256)"
proof (intro exI conjI allI impI)
  show "length (stored flat) = 256"
    by (rule length_stored)
  show "session (main st (Some f) opts) ''sbox'' = Some (Some (stored flat))"
    by (simp add: main_read_session [OF assms])
  show "snd ` set (calls (main st (Some f) opts)) \<subseteq> {stored flat}"
    by (rule main_read_calls [OF assms])
  show "Table grid_labels grid_labels (grid (stored flat)) \<in> set (page (main st (Some f) opts))"
    by (simp add: main_read_table [OF assms])
  show "reshape 16 16 (stored flat) = Inr (grid (stored flat))"
    by (rule reshape_stored)
  show "g = grid (stored flat)" if "Table i c g \<in> set (page (main st (Some f) opts))" for i c g
    using that by (simp add: main_read_table [OF assms])
  show "rows = export_rows (stored flat)"
    if "DownloadButton l n rows \<in> set (page (main st (Some f) opts))" for l n rows
    using that by (rule main_read_download [OF assms])
  show "length rows = 256"
    if "DownloadButton l n rows \<in> set (page (main st (Some f) opts))" for l n rows
    using main_read_download [OF assms that] by (simp add: export_rows_def length_stored)
qed

theorem stored_sbox_has_256_entries_witness:
  "\<exists>sbox. length sbox = 256 \<and>
     session (main Map.empty (Some \<lparr>name = ''table.xlsx'', cells = Inr (replicate 300 7)\<rparr>) [SAC]) ''sbox''
       = Some (Some sbox) \<and>
     snd ` set (calls (main Map.empty (Some \<lparr>name = ''table.xlsx'', cells = Inr (replicate 300 7)\<rparr>) [SAC]))
       \<subseteq> {sbox} \<and>
     Table grid_labels grid_labels (grid sbox)
       \<in> set (page (main Map.empty (Some \<lparr>name = ''table.xlsx'', cells = Inr (replicate 300 7)\<rparr>) [SAC])) \<and>
     reshape 16 16 sbox = Inr (grid sbox) \<and>
     (\<forall>i c g. Table i c g
         \<in> set (page (main Map.empty (Some \<lparr>name = ''table.xlsx'', cells = Inr (replicate 300 7)\<rparr>) [SAC]))
        \<longrightarrow> g = grid sbox) \<and>
     (\<forall>l n rows. DownloadButton l n rows
         \<in> set (page (main Map.empty (Some \<lparr>name = ''table.xlsx'', cells = Inr (replicate 300 7)\<rparr>) [SAC]))
        \<longrightarrow> rows = export_rows sbox \<and> length rows = 256)"
  using stored_sbox_has_256_entries [of "\<lparr>name = ''table.xlsx'', cells = Inr (replicate 300 7)\<rparr>"
      "replicate 300 7" Map.empty "[SAC]"]
  by (simp add: accepted_xlsx)

text \<open>
  C8. On the identity table of 256 entries, \<open>S(x) = x\<close>, the analyses return LAP = 1,
  DAP = 1, an average avalanche flip rate (SAC) of \<open>1 / n = 1 / 8\<close> and
  nonlinearity 0.
\<close>

theorem identity_table_metrics:
  "linear_approximation_probability identity_table = Inr 1 \<and>
   calculate_dap identity_table = Inr 1 \<and>
   strict_avalanche_criterion identity_table = Inr (1 / 8) \<and>
   compute_nonlinearity identity_table = Inr 0"
  by (simp add: linear_approximation_probability_def calculate_dap_def
      strict_avalanche_criterion_def compute_nonlinearity_def checked_identity
      lap_identity dap_identity sac_identity nonlinearity_identity)

theorem identity_table_metrics_witness:
  "shown LAP identity_table = Inr ''1.000000'' \<and>
   shown DAP identity_table = Inr ''1.0000000000'' \<and>
   shown SAC identity_table = Inr ''0.1250000000'' \<and>
   shown Nonlinearity identity_table = Inr ''0''"
  using identity_table_metrics
  by (simp add: shown_def format_one_6 format_one_10 format_eighth_10 str_int_zero)

text \<open>
  C9. When the uploaded table has fewer than 256 entries, the fill value is 0: the table
  the script stores in the session state is the original entries, in order, followed by
  \<open>256 - length\<close> zeros.
\<close>

theorem padding_fills_with_zero:
  assumes "accepted (name f)" and "cells f = Inr flat" and "length flat < 256"
  shows "stored flat = flat @ replicate (256 - length flat) 0 \<and>
         session (main st (Some f) opts) ''sbox'' = Some (Some (flat @ replicate (256 - length flat) 0))"
proof -
  have "stored flat = flat @ replicate (256 - length flat) 0"
    using assms(3) by (simp add: stored_def adjust_size_def)
  then show ?thesis
    by (simp add: main_read_session [OF assms(1,2)])
qed

theorem padding_fills_with_zero_witness:
  "stored [99, 124, 119] = [99, 124, 119] @ replicate 253 0 \<and>
   session (main Map.empty (Some \<lparr>name = ''sbox.csv'', cells = Inr [99, 124, 119]\<rparr>) [LAP]) ''sbox''
     = Some (Some ([99, 124, 119] @ replicate 253 0))"
  using padding_fills_with_zero [of "\<lparr>name = ''sbox.csv'', cells = Inr [99, 124, 119]\<rparr>" "[99, 124, 119]" Map.empty "[LAP]"]
  by (simp add: accepted_csv)



end
